theory Spec2Isabelle
  imports Complex_Main
begin

section \<open>Python values used by the travel itinerary generator\<close>

text \<open>
  The repository is Python. Its strings are sequences of Unicode code points, so a
  string is modelled as a list of code points (natural numbers); \<open>ascii\<close> embeds
  an ASCII literal. Python integers are unbounded and modelled by \<open>int\<close>; the
  interpreter's configurable limit on the number of digits in int/str conversions is
  not modelled.

  The parts of the interpreter's Unicode database that the code reaches through
  \<open>int()\<close>, \<open>float()\<close>, \<open>str.upper()\<close> and \<open>str.title()\<close> are a
  parameter of the model (record \<open>ucd\<close>); it is consulted for code points from
  128 on only, the ASCII range is written out.
\<close>

type_synonym ustr = "nat list"

definition ascii :: "string \<Rightarrow> ustr" where
  "ascii s = map of_char s"

datatype py_error =
    ValueError | TypeError | KeyError | IndexError | AttributeError | ZeroDivisionError

record ucd =
  decimal_of :: "nat \<Rightarrow> nat option"
  upper_of :: "nat \<Rightarrow> ustr"
  lower_of :: "nat \<Rightarrow> ustr"
  title_of :: "nat \<Rightarrow> ustr"
  cased :: "nat \<Rightarrow> bool"

text \<open>A database that knows no decimal digit and no cased letter beyond ASCII.\<close>

definition ascii_ucd :: ucd where
  "ascii_ucd = \<lparr> decimal_of = (\<lambda>c. None), upper_of = (\<lambda>c. [c]),
     lower_of = (\<lambda>c. [c]), title_of = (\<lambda>c. [c]), cased = (\<lambda>c. False) \<rparr>"

subsection \<open>Whitespace, strip, replace, split\<close>

text \<open>
  \<open>str.isspace\<close> on one code point: the characters \<open>str.strip()\<close> and
  \<open>str.split()\<close> remove.
\<close>

definition py_isspace :: "nat \<Rightarrow> bool" where
  "py_isspace c \<longleftrightarrow>
     (9 \<le> c \<and> c \<le> 13) \<or> (28 \<le> c \<and> c \<le> 32) \<or> c = 133 \<or> c = 160 \<or> c = 5760 \<or>
     (8192 \<le> c \<and> c \<le> 8202) \<or> c = 8232 \<or> c = 8233 \<or> c = 8239 \<or> c = 8287 \<or> c = 12288"

definition py_strip :: "ustr \<Rightarrow> ustr" where
  "py_strip s = rev (dropWhile py_isspace (rev (dropWhile py_isspace s)))"

text \<open>\<open>s.replace(c, "")\<close> for a pattern \<open>c\<close> of one code point.\<close>

definition py_remove :: "nat \<Rightarrow> ustr \<Rightarrow> ustr" where
  "py_remove c s = filter (\<lambda>x. x \<noteq> c) s"

text \<open>\<open>s.split(sep)\<close> for a separator of one code point: never the empty list.\<close>

fun py_split_on :: "nat \<Rightarrow> ustr \<Rightarrow> ustr list" where
  "py_split_on c [] = [[]]"
| "py_split_on c (x # xs) =
     (if x = c then [] # py_split_on c xs
      else (case py_split_on c xs of
              [] \<Rightarrow> [[x]]
            | p # ps \<Rightarrow> (x # p) # ps))"

text \<open>\<open>s.split()\<close>: the maximal runs of non-whitespace code points.\<close>

fun py_split_ws :: "ustr \<Rightarrow> ustr list" where
  "py_split_ws [] = []"
| "py_split_ws (x # xs) =
     (if py_isspace x then py_split_ws xs
      else (case xs of
              [] \<Rightarrow> [[x]]
            | y # ys \<Rightarrow>
                if py_isspace y then [x] # py_split_ws xs
                else (case py_split_ws xs of
                        [] \<Rightarrow> [[x]]
                      | p # ps \<Rightarrow> (x # p) # ps)))"


subsection \<open>Integers: \<open>int(s)\<close>, \<open>str(n)\<close> and the format \<open>{n:,}\<close>\<close>

definition is_digit :: "nat \<Rightarrow> bool" where
  "is_digit c \<longleftrightarrow> 48 \<le> c \<and> c \<le> 57"

definition c_isspace :: "nat \<Rightarrow> bool" where
  "c_isspace c \<longleftrightarrow> c = 32 \<or> (9 \<le> c \<and> c \<le> 13)"

definition c_strip :: "ustr \<Rightarrow> ustr" where
  "c_strip s = rev (dropWhile c_isspace (rev (dropWhile c_isspace s)))"

text \<open>
  Before parsing a number the interpreter maps every non-ASCII whitespace to a blank
  and every non-ASCII decimal digit to its ASCII digit; any other non-ASCII code point
  makes the literal invalid.
\<close>

definition to_ascii_char :: "ucd \<Rightarrow> nat \<Rightarrow> nat option" where
  "to_ascii_char U c =
     (if c < 128 then Some c
      else if py_isspace c then Some 32
      else map_option (\<lambda>d. 48 + d) (decimal_of U c))"

fun to_ascii_decimal :: "ucd \<Rightarrow> ustr \<Rightarrow> ustr option" where
  "to_ascii_decimal U [] = Some []"
| "to_ascii_decimal U (c # cs) =
     (case to_ascii_char U c of
        None \<Rightarrow> None
      | Some a \<Rightarrow> map_option ((#) a) (to_ascii_decimal U cs))"

text \<open>
  The body of a decimal literal: digits, with single underscores between digits.
\<close>

fun int_body_ok :: "ustr \<Rightarrow> bool" where
  "int_body_ok [] = False"
| "int_body_ok [c] = is_digit c"
| "int_body_ok (c # d # cs) =
     (is_digit c \<and> (if d = 95 then int_body_ok cs else int_body_ok (d # cs)))"

definition dec_value :: "ustr \<Rightarrow> nat" where
  "dec_value s = foldl (\<lambda>a c. 10 * a + (c - 48)) 0 (filter is_digit s)"

definition parse_int_ascii :: "ustr \<Rightarrow> int option" where
  "parse_int_ascii a =
     (case c_strip a of
        [] \<Rightarrow> None
      | c # cs \<Rightarrow>
          if c = 45 then (if int_body_ok cs then Some (- int (dec_value cs)) else None)
          else if c = 43 then (if int_body_ok cs then Some (int (dec_value cs)) else None)
          else (if int_body_ok (c # cs) then Some (int (dec_value (c # cs))) else None))"

text \<open>\<open>int(s)\<close>: \<open>None\<close> stands for the ValueError.\<close>

definition py_int :: "ucd \<Rightarrow> ustr \<Rightarrow> int option" where
  "py_int U s = (case to_ascii_decimal U s of None \<Rightarrow> None | Some a \<Rightarrow> parse_int_ascii a)"

function dec_digits :: "nat \<Rightarrow> ustr" where
  "dec_digits n = (if n < 10 then [48 + n] else dec_digits (n div 10) @ [48 + n mod 10])"
  by pat_completeness auto
termination
  by (relation "measure (\<lambda>n. n)") auto

declare dec_digits.simps [simp del]

text \<open>\<open>str(n)\<close> for an integer.\<close>

definition py_str_int :: "int \<Rightarrow> ustr" where
  "py_str_int n = (if n < 0 then 45 # dec_digits (nat (- n)) else dec_digits (nat n))"

text \<open>
  A comma after every third digit, counted from the right: the argument is the
  reversed digit string.
\<close>

fun commas_rev :: "ustr \<Rightarrow> ustr" where
  "commas_rev (a # b # c # d # ds) = a # b # c # 44 # commas_rev (d # ds)"
| "commas_rev ds = ds"

text \<open>The format \<open>{n:,}\<close> of an integer.\<close>

definition fmt_comma :: "int \<Rightarrow> ustr" where
  "fmt_comma n =
     (if n < 0 then 45 # rev (commas_rev (rev (dec_digits (nat (- n)))))
      else rev (commas_rev (rev (dec_digits (nat n)))))"

subsection \<open>Floats: values, arithmetic and \<open>float(s)\<close>\<close>

text \<open>
  A Python float is modelled by its exact value, a real number, or one of the three
  values that are no number. Rounding to binary64 and overflow are not modelled;
  comparisons are exact in Python as they are here. A JSON integer used as a number
  is the finite value it denotes.
\<close>

datatype pyfloat = Fin real | PInf | NInf | NaN

fun pf_le :: "pyfloat \<Rightarrow> pyfloat \<Rightarrow> bool" where
  "pf_le NaN y = False"
| "pf_le x NaN = False"
| "pf_le NInf y = True"
| "pf_le x PInf = True"
| "pf_le PInf y = False"
| "pf_le x NInf = False"
| "pf_le (Fin x) (Fin y) = (x \<le> y)"


text \<open>\<open>x * y\<close> for a float \<open>x\<close> and a finite number \<open>y\<close>.\<close>

fun pf_times :: "pyfloat \<Rightarrow> real \<Rightarrow> pyfloat" where
  "pf_times (Fin x) y = Fin (x * y)"
| "pf_times NaN y = NaN"
| "pf_times PInf y = (if y = 0 then NaN else if 0 < y then PInf else NInf)"
| "pf_times NInf y = (if y = 0 then NaN else if 0 < y then NInf else PInf)"

text \<open>\<open>x / n\<close> for a float \<open>x\<close> and an integer \<open>n\<close>: a zero divisor raises.\<close>

fun pf_div_int :: "pyfloat \<Rightarrow> int \<Rightarrow> py_error + pyfloat" where
  "pf_div_int x n =
     (if n = 0 then Inl ZeroDivisionError
      else Inr (case x of
                  Fin r \<Rightarrow> Fin (r / real_of_int n)
                | NaN \<Rightarrow> NaN
                | PInf \<Rightarrow> (if 0 < n then PInf else NInf)
                | NInf \<Rightarrow> (if 0 < n then NInf else PInf)))"

text \<open>
  Underscores in a float literal: each one stands between two digits. The first
  argument is the previous character, 0 at the start.
\<close>

fun underscores_ok :: "nat \<Rightarrow> ustr \<Rightarrow> bool" where
  "underscores_ok prev [] = (prev \<noteq> 95)"
| "underscores_ok prev (c # cs) =
     (if c = 95 then is_digit prev \<and> underscores_ok c cs
      else if prev = 95 then is_digit c \<and> underscores_ok c cs
      else underscores_ok c cs)"

definition ascii_lower :: "nat \<Rightarrow> nat" where
  "ascii_lower c = (if 65 \<le> c \<and> c \<le> 90 then c + 32 else c)"

definition pow10 :: "real \<Rightarrow> int \<Rightarrow> real" where
  "pow10 x e = (if 0 \<le> e then x * 10 ^ nat e else x / 10 ^ nat (- e))"

text \<open>The exponent part of a decimal literal, empty or \<open>e[sign]digits\<close>.\<close>

definition parse_exponent :: "ustr \<Rightarrow> int option" where
  "parse_exponent s =
     (case s of
        [] \<Rightarrow> Some 0
      | e # t \<Rightarrow>
          if e = 101 \<or> e = 69 then
            (case t of
               [] \<Rightarrow> None
             | g # ds \<Rightarrow>
                 if g = 45 then (if ds \<noteq> [] \<and> list_all is_digit ds then Some (- int (dec_value ds)) else None)
                 else if g = 43 then (if ds \<noteq> [] \<and> list_all is_digit ds then Some (int (dec_value ds)) else None)
                 else (if list_all is_digit t then Some (int (dec_value t)) else None))
          else None)"

text \<open>An unsigned literal: \<open>inf\<close>, \<open>infinity\<close>, \<open>nan\<close> in any case, or a decimal number.\<close>

definition parse_abs_float :: "ustr \<Rightarrow> pyfloat option" where
  "parse_abs_float s =
     (let low = map ascii_lower s in
      if low = ascii ''inf'' \<or> low = ascii ''infinity'' then Some PInf
      else if low = ascii ''nan'' then Some NaN
      else
        (let ip = takeWhile is_digit s; r1 = dropWhile is_digit s;
             fp = (case r1 of [] \<Rightarrow> [] | d # t \<Rightarrow> if d = 46 then takeWhile is_digit t else []);
             r2 = (case r1 of [] \<Rightarrow> [] | d # t \<Rightarrow> if d = 46 then dropWhile is_digit t else r1)
         in if ip = [] \<and> fp = [] then None
            else (case parse_exponent r2 of
                    None \<Rightarrow> None
                  | Some e \<Rightarrow>
                      Some (Fin (pow10 (real (dec_value ip) + real (dec_value fp) / 10 ^ length fp) e)))))"

fun pf_neg :: "pyfloat \<Rightarrow> pyfloat" where
  "pf_neg (Fin x) = Fin (- x)"
| "pf_neg PInf = NInf"
| "pf_neg NInf = PInf"
| "pf_neg NaN = NaN"

definition parse_float_ascii :: "ustr \<Rightarrow> pyfloat option" where
  "parse_float_ascii a =
     (if \<not> underscores_ok 0 a then None
      else (case c_strip (filter (\<lambda>c. c \<noteq> 95) a) of
              [] \<Rightarrow> None
            | c # cs \<Rightarrow>
                if c = 45 then map_option pf_neg (parse_abs_float cs)
                else if c = 43 then parse_abs_float cs
                else parse_abs_float (c # cs)))"

text \<open>\<open>float(s)\<close> for a string: \<open>None\<close> stands for the ValueError.\<close>

definition py_float :: "ucd \<Rightarrow> ustr \<Rightarrow> pyfloat option" where
  "py_float U s = (case to_ascii_decimal U s of None \<Rightarrow> None | Some a \<Rightarrow> parse_float_ascii a)"

subsection \<open>Case mappings: \<open>str.upper()\<close> and \<open>str.title()\<close>\<close>








subsection \<open>JSON values returned by the language model\<close>

text \<open>
  What \<open>json.loads\<close> returns: an object is a list of key-value pairs, a lookup
  takes the last pair of a key. The two Python number types are one constructor.
\<close>

datatype json =
    JNull | JBool bool | JNum pyfloat | JStr ustr | JArr "json list" | JObj "(ustr \<times> json) list"

text \<open>\<open>v[key]\<close> for a string key: KeyError on an object without the key, TypeError on any other value.\<close>

definition py_getitem :: "json \<Rightarrow> ustr \<Rightarrow> py_error + json" where
  "py_getitem v key =
     (case v of
        JObj kvs \<Rightarrow> (case map_of (rev kvs) key of None \<Rightarrow> Inl KeyError | Some x \<Rightarrow> Inr x)
      | _ \<Rightarrow> Inl TypeError)"


text \<open>\<open>x <= v\<close> for a float \<open>x\<close> and a JSON value: defined on numbers and Booleans.\<close>

definition py_le_json :: "pyfloat \<Rightarrow> json \<Rightarrow> py_error + bool" where
  "py_le_json x v =
     (case v of
        JNum y \<Rightarrow> Inr (pf_le x y)
      | JBool b \<Rightarrow> Inr (pf_le x (Fin (if b then 1 else 0)))
      | _ \<Rightarrow> Inl TypeError)"



definition bindE :: "'e + 'a \<Rightarrow> ('a \<Rightarrow> 'e + 'b) \<Rightarrow> 'e + 'b" where
  "bindE m f = (case m of Inl e \<Rightarrow> Inl e | Inr x \<Rightarrow> f x)"

text \<open>Run the steps of a list in order, stopping at the first that raises.\<close>

fun sequenceE :: "('e + 'a) list \<Rightarrow> 'e + 'a list" where
  "sequenceE [] = Inr []"
| "sequenceE (m # ms) =
     (case m of
        Inl e \<Rightarrow> Inl e
      | Inr x \<Rightarrow> (case sequenceE ms of Inl e \<Rightarrow> Inl e | Inr xs \<Rightarrow> Inr (x # xs)))"

text \<open>
  A slice \<open>xs[i:j]\<close>, with Python's treatment of negative and too large bounds.
\<close>

definition slice_bound :: "nat \<Rightarrow> int \<Rightarrow> nat" where
  "slice_bound n i = (if i < 0 then nat (max 0 (int n + i)) else min n (nat i))"

definition py_slice :: "'a list \<Rightarrow> int \<Rightarrow> int \<Rightarrow> 'a list" where
  "py_slice xs i j = drop (slice_bound (length xs) i) (take (slice_bound (length xs) j) xs)"

section \<open>Request data: \<open>agents/request_parser.py\<close>\<close>

datatype accommodation_type = BUDGET | MID_RANGE | LUXURY

record travelers =
  adults :: int
  children :: int
  total :: int

text \<open>
  \<open>Budget.total_amount\<close> is annotated as a float; the workflow's default request
  stores a string there, so both are values of the field.
\<close>

datatype amount = Number pyfloat | Text ustr

record budget =
  total_amount :: amount
  currency :: ustr
  accommodation_type :: "accommodation_type option"

record core_travel_request =
  destination :: "ustr option"
  duration :: "int option"
  travelers :: "travelers option"
  budget :: "budget option"
  missing_fields :: "ustr list"
  is_complete :: bool
  needs_disambiguation :: "ustr option"
  parse_error :: "ustr option"

text \<open>\<open>CoreTravelRequest(destination=..., duration=..., travelers=..., budget=...)\<close>.\<close>

definition CoreTravelRequest ::
  "ustr option \<Rightarrow> int option \<Rightarrow> travelers option \<Rightarrow> budget option \<Rightarrow> core_travel_request" where
  "CoreTravelRequest dest dur trav bud =
     \<lparr> destination = dest, duration = dur, travelers = trav, budget = bud,
       missing_fields = [], is_complete = False, needs_disambiguation = None,
       parse_error = None \<rparr>"

section \<open>ActivitiesPlanner: \<open>agents/activities_planner.py\<close>\<close>

record place =
  place_name :: ustr
  place_location :: ustr
  significance :: ustr
  category :: ustr
  estimated_duration :: "ustr option"
  best_time_to_visit :: "ustr option"

record activity =
  activity_name :: ustr
  activity_place :: ustr
  activity_duration :: ustr
  description :: ustr
  cost_estimate :: "ustr option"

record meal =
  meal_time :: ustr
  meal_name :: ustr
  meal_place :: ustr
  meal_cost_estimate :: ustr

text \<open>
  A day of the itinerary. Its free-text notes and its date, which is never set, are
  left out.
\<close>

record day_itinerary =
  day_number :: int
  activities :: "activity list"
  meals :: "meal list"
  total_estimated_cost :: "ustr option"

record itinerary_output =
  itinerary_destination :: ustr
  duration_days :: int
  total_budget :: ustr
  itinerary_accommodation_type :: "accommodation_type option"
  must_visit_places :: "place list"
  daily_itineraries :: "day_itinerary list"
  itinerary_total_estimated_cost :: "ustr option"
  recommendations :: "ustr option"

subsection \<open>Cost ranges\<close>

definition rupee :: nat where
  "rupee = 8377"

text \<open>
  The body of \<open>_extract_cost_range\<close>. It raises when a part is no integer literal
  and when the dashes cut the string into more than two parts.
\<close>

definition cost_range_body :: "ucd \<Rightarrow> ustr \<Rightarrow> py_error + int \<times> int" where
  "cost_range_body U cost_str =
     (let cost_clean = py_strip (py_remove 44 (py_remove rupee cost_str)) in
      if 45 \<in> set cost_clean then
        (case py_split_on 45 cost_clean of
           [min_cost, max_cost] \<Rightarrow>
             (case py_int U (py_strip min_cost) of
                None \<Rightarrow> Inl ValueError
              | Some lo \<Rightarrow>
                  (case py_int U (py_strip max_cost) of
                     None \<Rightarrow> Inl ValueError
                   | Some hi \<Rightarrow> Inr (lo, hi)))
         | _ \<Rightarrow> Inl ValueError)
      else
        (case py_int U cost_clean of
           None \<Rightarrow> Inl ValueError
         | Some cost \<Rightarrow> Inr (cost, cost)))"

text \<open>
  \<open>_extract_cost_range\<close>: the bare \<open>except\<close> turns every exception of the body
  into the default range.
\<close>

definition extract_cost_range :: "ucd \<Rightarrow> ustr \<Rightarrow> int \<times> int" where
  "extract_cost_range U cost_str =
     (case cost_range_body U cost_str of Inl e \<Rightarrow> (500, 1000) | Inr r \<Rightarrow> r)"

text \<open>
  The call on an optional cost estimate: \<open>None\<close> has no \<open>replace\<close>, the
  AttributeError is caught as well.
\<close>

definition extract_cost_range_opt :: "ucd \<Rightarrow> ustr option \<Rightarrow> int \<times> int" where
  "extract_cost_range_opt U c = (case c of None \<Rightarrow> (500, 1000) | Some s \<Rightarrow> extract_cost_range U s)"

text \<open>The cost string \<open>f"\<rupee>{lo:,}-{hi:,}"\<close> of a day.\<close>

definition format_cost_range :: "int \<Rightarrow> int \<Rightarrow> ustr" where
  "format_cost_range lo hi = rupee # fmt_comma lo @ 45 # fmt_comma hi"

subsection \<open>Daily itineraries\<close>

definition mk_meal :: "string \<Rightarrow> string \<Rightarrow> string \<Rightarrow> ustr \<Rightarrow> meal" where
  "mk_meal t n p c = \<lparr> meal_time = ascii t, meal_name = ascii n, meal_place = ascii p,
     meal_cost_estimate = c \<rparr>"

definition luxury_meals :: "meal list" where
  "luxury_meals =
     [mk_meal ''08:00'' ''Breakfast'' ''Hotel restaurant'' (rupee # ascii ''800-1200''),
      mk_meal ''13:00'' ''Lunch'' ''Fine dining restaurant'' (rupee # ascii ''1500-2500''),
      mk_meal ''19:30'' ''Dinner'' ''Upscale restaurant'' (rupee # ascii ''2000-3500'')]"

definition budget_meals :: "meal list" where
  "budget_meals =
     [mk_meal ''08:30'' ''Breakfast'' ''Local cafe'' (rupee # ascii ''200-400''),
      mk_meal ''12:30'' ''Lunch'' ''Street food/Local eatery'' (rupee # ascii ''300-600''),
      mk_meal ''19:00'' ''Dinner'' ''Budget restaurant'' (rupee # ascii ''400-800'')]"

definition mid_range_meals :: "meal list" where
  "mid_range_meals =
     [mk_meal ''08:30'' ''Breakfast'' ''Hotel/Local restaurant'' (rupee # ascii ''400-700''),
      mk_meal ''12:30'' ''Lunch'' ''Mid-range restaurant'' (rupee # ascii ''800-1200''),
      mk_meal ''19:30'' ''Dinner'' ''Local restaurant'' (rupee # ascii ''1000-1500'')]"

definition fallback_meals :: "meal list" where
  "fallback_meals =
     [mk_meal ''12:30'' ''Lunch'' ''Local restaurant'' (rupee # ascii ''800-1200''),
      mk_meal ''19:30'' ''Dinner'' ''Local restaurant'' (rupee # ascii ''1000-1500'')]"

text \<open>\<open>max(2, len(activities) // duration)\<close>: the division raises on a zero duration.\<close>

definition activities_per_day :: "nat \<Rightarrow> int \<Rightarrow> py_error + int" where
  "activities_per_day n d =
     (if d = 0 then Inl ZeroDivisionError else Inr (max 2 (int n div d)))"

text \<open>The slice \<open>activities[start_idx:end_idx]\<close> of the day with index \<open>day\<close>.\<close>

definition day_activities :: "'a list \<Rightarrow> int \<Rightarrow> int \<Rightarrow> 'a list" where
  "day_activities acts per_day day =
     (let start_idx = day * per_day;
          end_idx = min (start_idx + per_day) (int (length acts))
      in py_slice acts start_idx end_idx)"

text \<open>
  One round of the loop of \<open>_create_daily_itineraries\<close>. The meal schedule reads
  the budget of the request and the notes read its travelers: a request without one
  of them raises AttributeError.
\<close>

definition main_day ::
  "ucd \<Rightarrow> activity list \<Rightarrow> core_travel_request \<Rightarrow> int \<Rightarrow> int \<Rightarrow> py_error + day_itinerary" where
  "main_day U acts req per_day day =
     (let acts_of_day = day_activities acts per_day day in
      case budget req of
        None \<Rightarrow> Inl AttributeError
      | Some b \<Rightarrow>
          (let meals_of_day =
                 (if accommodation_type b = Some LUXURY then luxury_meals
                  else if accommodation_type b = Some BUDGET then budget_meals
                  else mid_range_meals);
               activity_costs = map (\<lambda>a. extract_cost_range_opt U (cost_estimate a)) acts_of_day;
               meal_costs = map (\<lambda>m. extract_cost_range U (meal_cost_estimate m)) meals_of_day;
               total_min = sum_list (map fst (activity_costs @ meal_costs));
               total_max = sum_list (map snd (activity_costs @ meal_costs));
               daily_cost = format_cost_range total_min total_max
           in case travelers req of
                None \<Rightarrow> Inl AttributeError
              | Some t \<Rightarrow>
                  Inr \<lparr> day_number = day + 1, activities = acts_of_day, meals = meals_of_day,
                        total_estimated_cost = Some daily_cost \<rparr>))"

text \<open>\<open>range(n)\<close> as a list of integers, empty for \<open>n \<le> 0\<close>.\<close>

definition py_range :: "int \<Rightarrow> int list" where
  "py_range n = map int [0..<nat n]"

text \<open>\<open>_create_fallback_itinerary\<close>.\<close>

definition create_fallback_itinerary ::
  "activity list \<Rightarrow> core_travel_request \<Rightarrow> py_error + day_itinerary list" where
  "create_fallback_itinerary acts req =
     (case duration req of
        None \<Rightarrow> Inl TypeError
      | Some d \<Rightarrow>
          bindE (activities_per_day (length acts) d) (\<lambda>per_day.
            Inr (map (\<lambda>day. \<lparr> day_number = day + 1,
                              activities = day_activities acts per_day day,
                              meals = fallback_meals,
                              total_estimated_cost = Some (rupee # ascii ''3000-5000'') \<rparr>)
                     (py_range d))))"

text \<open>The \<open>try\<close> block of \<open>_create_daily_itineraries\<close>.\<close>

definition main_itinerary ::
  "ucd \<Rightarrow> activity list \<Rightarrow> core_travel_request \<Rightarrow> py_error + day_itinerary list" where
  "main_itinerary U acts req =
     (case duration req of
        None \<Rightarrow> Inl TypeError
      | Some d \<Rightarrow>
          bindE (activities_per_day (length acts) d) (\<lambda>per_day.
            sequenceE (map (main_day U acts req per_day) (py_range d))))"

text \<open>\<open>_create_daily_itineraries\<close>: any exception of the block hands over to the fallback.\<close>

definition create_daily_itineraries ::
  "ucd \<Rightarrow> activity list \<Rightarrow> core_travel_request \<Rightarrow> py_error + day_itinerary list" where
  "create_daily_itineraries U acts req =
     (case main_itinerary U acts req of
        Inl e \<Rightarrow> create_fallback_itinerary acts req
      | Inr days \<Rightarrow> Inr days)"

section \<open>AccommodationSuggester: \<open>agents/accommodation_suggester.py\<close>\<close>

record accommodation_option =
  option_name :: json
  option_location :: json
  price_per_night :: pyfloat
  total_cost :: pyfloat
  rating :: json
  brief_description :: json
  proximity_score :: json
  travel_convenience :: json

text \<open>
  The field \<open>nightly_budget_range\<close> is the string \<open>f"{min}-{max} {currency}"\<close>;
  the model keeps its three components.
\<close>

record accommodation_output =
  output_destination :: ustr
  output_duration_days :: int
  budget_allocated :: pyfloat
  budget_category :: ustr
  nightly_budget_range :: "json \<times> json \<times> ustr"
  key_activity_areas :: json
  accommodation_options :: "accommodation_option list"


record budget_info =
  info_total_budget :: pyfloat
  info_currency :: ustr
  accommodation_budget :: pyfloat
  nightly_budget :: pyfloat

text \<open>The \<open>try\<close> block of \<open>_extract_budget_info\<close>.\<close>

definition budget_info_body :: "ucd \<Rightarrow> itinerary_output \<Rightarrow> py_error + budget_info" where
  "budget_info_body U it =
     (case py_split_ws (total_budget it) of
        [] \<Rightarrow> Inl IndexError
      | amount_part # rest \<Rightarrow>
          (case py_float U amount_part of
             None \<Rightarrow> Inl ValueError
           | Some amt \<Rightarrow>
               (case rest of
                  [] \<Rightarrow> Inl IndexError
                | cur # others \<Rightarrow>
                    (let acc_budget = pf_times amt 0.4 in
                     bindE (pf_div_int acc_budget (duration_days it)) (\<lambda>nightly.
                       Inr \<lparr> info_total_budget = amt, info_currency = cur,
                             accommodation_budget = acc_budget, nightly_budget = nightly \<rparr>)))))"

text \<open>\<open>_extract_budget_info\<close>: every exception of the block is raised again as a ValueError.\<close>

definition extract_budget_info :: "ucd \<Rightarrow> itinerary_output \<Rightarrow> py_error + budget_info" where
  "extract_budget_info U it =
     (case budget_info_body U it of Inl e \<Rightarrow> Inl ValueError | Inr info \<Rightarrow> Inr info)"








definition price_band :: "real \<Rightarrow> real \<Rightarrow> json" where
  "price_band lo hi = JObj [(ascii ''min'', JNum (Fin lo)), (ascii ''max'', JNum (Fin hi))]"

definition price_table :: "json \<Rightarrow> json \<Rightarrow> json \<Rightarrow> json" where
  "price_table low medium high =
     JObj [(ascii ''low'', low), (ascii ''medium'', medium), (ascii ''high'', high)]"

text \<open>\<open>_fallback_budget_categories\<close>.\<close>

definition fallback_budget_categories :: "ustr \<Rightarrow> ustr \<Rightarrow> json" where
  "fallback_budget_categories dest cur =
     (let categories =
            (if cur = ascii ''INR'' then
               price_table (price_band 1500 3500) (price_band 3500 8000) (price_band 8000 25000)
             else if cur = ascii ''USD'' then
               price_table (price_band 25 75) (price_band 75 200) (price_band 200 600)
             else
               price_table (price_band 30 80) (price_band 80 200) (price_band 200 500))
      in JObj [(ascii ''destination'', JStr dest),
               (ascii ''currency'', JStr cur),
               (ascii ''budget_categories'', categories),
               (ascii ''market_context'', JStr (ascii ''Fallback budget categories for '' @ dest))])"


text \<open>The \<open>try\<close> block of \<open>_classify_budget_tier\<close>.\<close>

definition classify_body :: "pyfloat \<Rightarrow> json \<Rightarrow> py_error + ustr" where
  "classify_body nightly budget_categories =
     bindE (py_getitem budget_categories (ascii ''low'')) (\<lambda>low.
     bindE (py_getitem low (ascii ''max'')) (\<lambda>low_max.
     bindE (py_getitem budget_categories (ascii ''medium'')) (\<lambda>medium.
     bindE (py_getitem medium (ascii ''max'')) (\<lambda>medium_max.
     bindE (py_le_json nightly low_max) (\<lambda>is_low.
       if is_low then Inr (ascii ''low'')
       else bindE (py_le_json nightly medium_max) (\<lambda>is_medium.
              if is_medium then Inr (ascii ''medium'') else Inr (ascii ''high'')))))))"

text \<open>\<open>_classify_budget_tier\<close>.\<close>

definition classify_budget_tier :: "pyfloat \<Rightarrow> json \<Rightarrow> ustr" where
  "classify_budget_tier nightly budget_categories =
     (case classify_body nightly budget_categories of
        Inl e \<Rightarrow> ascii ''medium''
      | Inr tier \<Rightarrow> tier)"








section \<open>RequestParser: the conversation manager of \<open>agents/request_parser.py\<close>\<close>





















section \<open>The sequential workflow: \<open>workflows/data_models.py\<close> and \<open>workflows/travel_itinerary_workflow.py\<close>\<close>

datatype workflow_stage =
    PARSING_REQUEST | FINDING_PLACES | PLANNING_ACTIVITIES | FINDING_ACCOMMODATIONS
  | ASSEMBLING_RESPONSE | STAGE_COMPLETED | STAGE_FAILED

datatype agent_status = PENDING | RUNNING | COMPLETED | FAILED | SKIPPED

text \<open>The clock readings of an execution (start, end, elapsed time) are left out.\<close>

record agent_execution =
  agent_name :: ustr
  status :: agent_status
  error_message :: "ustr option"
  retry_count :: nat

definition AgentExecution :: "ustr \<Rightarrow> agent_execution" where
  "AgentExecution name =
     \<lparr> agent_name = name, status = PENDING, error_message = None, retry_count = 0 \<rparr>"

definition start :: "agent_execution \<Rightarrow> agent_execution" where
  "start ae = ae\<lparr> status := RUNNING \<rparr>"

definition complete :: "agent_execution \<Rightarrow> agent_execution" where
  "complete ae = ae\<lparr> status := COMPLETED \<rparr>"

definition fail :: "agent_execution \<Rightarrow> ustr \<Rightarrow> agent_execution" where
  "fail ae msg = ae\<lparr> status := FAILED, error_message := Some msg \<rparr>"

record workflow_metadata =
  workflow_id :: ustr
  current_stage :: workflow_stage
  overall_status :: ustr
  request_parser :: agent_execution
  activities_planner :: agent_execution
  accommodation_suggester :: agent_execution
  errors :: "ustr list"
  warnings :: "ustr list"

definition create_workflow_metadata :: "ustr \<Rightarrow> workflow_metadata" where
  "create_workflow_metadata wid =
     \<lparr> workflow_id = wid, current_stage = PARSING_REQUEST, overall_status = ascii ''running'',
       request_parser = AgentExecution (ascii ''RequestParser''),
       activities_planner = AgentExecution (ascii ''ActivitiesPlanner''),
       accommodation_suggester = AgentExecution (ascii ''AccommodationSuggester''),
       errors = [], warnings = [] \<rparr>"

definition complete_workflow :: "workflow_metadata \<Rightarrow> workflow_metadata" where
  "complete_workflow md = md\<lparr> current_stage := STAGE_COMPLETED, overall_status := ascii ''completed'' \<rparr>"

definition has_errors :: "workflow_metadata \<Rightarrow> bool" where
  "has_errors md \<longleftrightarrow>
     0 < length (errors md) \<or>
     status (request_parser md) = FAILED \<or> status (activities_planner md) = FAILED \<or>
     status (accommodation_suggester md) = FAILED"

record travel_itinerary_response =
  parsed_request :: "core_travel_request option"
  itinerary :: "itinerary_output option"
  accommodations :: "accommodation_output option"
  workflow_metadata :: workflow_metadata
  summary :: "ustr option"
  user_input :: "ustr option"

definition create_empty_response :: "ustr \<Rightarrow> workflow_metadata \<Rightarrow> travel_itinerary_response" where
  "create_empty_response input md =
     \<lparr> parsed_request = None, itinerary = None, accommodations = None, workflow_metadata = md,
       summary = None, user_input = Some input \<rparr>"

text \<open>\<open>TravelItineraryResponse.is_complete\<close> and \<open>is_partial\<close>.\<close>

definition response_is_complete :: "travel_itinerary_response \<Rightarrow> bool" where
  "response_is_complete r \<longleftrightarrow>
     parsed_request r \<noteq> None \<and> itinerary r \<noteq> None \<and> accommodations r \<noteq> None"

definition is_partial :: "travel_itinerary_response \<Rightarrow> bool" where
  "is_partial r =
     (let has_some = (parsed_request r \<noteq> None \<or> itinerary r \<noteq> None \<or> accommodations r \<noteq> None);
          has_all = (parsed_request r \<noteq> None \<and> itinerary r \<noteq> None \<and> accommodations r \<noteq> None)
      in has_some \<and> \<not> has_all)"

text \<open>
  One attempt of a stage ends in a value, in the time-out of \<open>asyncio.wait_for\<close>, or
  in another exception, of which the text is kept.
\<close>

datatype 'a outcome = Returns 'a | TimesOut | Raises ustr

text \<open>
  What RequestParser hands to the workflow: the truth value of the key
  \<open>is_complete\<close> of the answer, and the data it has collected.
\<close>

record parser_result =
  reports_complete :: bool
  collected_data :: core_travel_request

text \<open>
  The agents and the clock are outside the workflow: a run is given the outcome of
  every attempt of every stage, the identifier drawn for it, and the outcome of
  formatting the summary lines.
\<close>

record workflow_env =
  fresh_id :: ustr
  parser_run :: "nat \<Rightarrow> parser_result outcome"
  planner_run :: "nat \<Rightarrow> core_travel_request \<Rightarrow> itinerary_output outcome"
  suggester_run :: "nat \<Rightarrow> itinerary_output \<Rightarrow> accommodation_output outcome"
  summary_run :: "travel_itinerary_response \<Rightarrow> ustr + ustr"

definition agent_timeout :: nat where "agent_timeout = 180"
definition max_retries :: nat where "max_retries = 2"

definition timeout_message :: "ustr \<Rightarrow> ustr" where
  "timeout_message label =
     label @ ascii '' timeout after '' @ py_str_int (int agent_timeout) @ ascii ''s''"

definition error_message_of :: "ustr \<Rightarrow> ustr \<Rightarrow> ustr" where
  "error_message_of label e = label @ ascii '' error: '' @ e"

text \<open>
  The retry loop \<open>for attempt in range(self.max_retries + 1)\<close>, which the three
  stages share word for word: the result of the stage if an attempt returned, the
  execution record, and the messages appended to the error list of the workflow. The
  first number counts the rounds that are left. A time-out of the last attempt fails
  the agent without a message in that list.
\<close>

fun attempt_loop ::
  "ustr \<Rightarrow> (nat \<Rightarrow> 'a outcome) \<Rightarrow> nat \<Rightarrow> nat \<Rightarrow> agent_execution
     \<Rightarrow> 'a option \<times> agent_execution \<times> ustr list" where
  "attempt_loop label run 0 attempt ae = (None, ae, [])"
| "attempt_loop label run (Suc left) attempt ae =
     (let ae1 = start ae in
      case run attempt of
        Returns v \<Rightarrow> (Some v, complete ae1, [])
      | TimesOut \<Rightarrow>
          if attempt < max_retries
          then attempt_loop label run left (attempt + 1) (ae1\<lparr> retry_count := retry_count ae1 + 1 \<rparr>)
          else (None, fail ae1 (timeout_message label), [])
      | Raises e \<Rightarrow>
          if attempt < max_retries
          then attempt_loop label run left (attempt + 1) (ae1\<lparr> retry_count := retry_count ae1 + 1 \<rparr>)
          else (None, fail ae1 (error_message_of label e), [error_message_of label e]))"

definition run_stage ::
  "ustr \<Rightarrow> (nat \<Rightarrow> 'a outcome) \<Rightarrow> agent_execution \<Rightarrow> 'a option \<times> agent_execution \<times> ustr list" where
  "run_stage label run ae = attempt_loop label run (max_retries + 1) 0 ae"

text \<open>\<open>_create_fallback_request\<close> and \<open>_create_partial_request_from_response\<close>.\<close>

definition create_fallback_request :: core_travel_request where
  "create_fallback_request =
     CoreTravelRequest (Some (ascii ''Mumbai, India'')) (Some 3)
       (Some \<lparr> adults = 2, children = 0, total = 2 \<rparr>)
       (Some \<lparr> total_amount = Text (ascii ''25000 INR''), currency = ascii ''INR'',
               accommodation_type = Some MID_RANGE \<rparr>)"

definition create_partial_request_from_response :: "parser_result \<Rightarrow> ustr \<Rightarrow> core_travel_request" where
  "create_partial_request_from_response response input =
     CoreTravelRequest (Some (ascii ''Mumbai, India'')) (Some 3)
       (Some \<lparr> adults = 2, children = 0, total = 2 \<rparr>)
       (Some \<lparr> total_amount = Text (ascii ''25000 INR''), currency = ascii ''INR'',
               accommodation_type = Some MID_RANGE \<rparr>)"

text \<open>
  \<open>_convert_to_core_travel_request\<close>, on the collected data as a dictionary: every
  key is present, so no default of a \<open>get\<close> is used; data without travelers or
  without a budget raise inside and give the fallback request.
\<close>

definition convert_to_core_travel_request :: "core_travel_request \<Rightarrow> core_travel_request" where
  "convert_to_core_travel_request data =
     (case travelers data of
        None \<Rightarrow> create_fallback_request
      | Some t \<Rightarrow>
          (case budget data of
             None \<Rightarrow> create_fallback_request
           | Some b \<Rightarrow>
               CoreTravelRequest (destination data) (duration data)
                 (Some \<lparr> adults = adults t, children = children t, total = adults t + children t \<rparr>)
                 (Some \<lparr> total_amount = total_amount b, currency = currency b,
                         accommodation_type = accommodation_type b \<rparr>)))"

definition extend_errors :: "workflow_metadata \<Rightarrow> ustr list \<Rightarrow> workflow_metadata" where
  "extend_errors md msgs = md\<lparr> errors := errors md @ msgs \<rparr>"

text \<open>\<open>_execute_request_parser\<close>.\<close>

definition execute_request_parser ::
  "workflow_env \<Rightarrow> ustr \<Rightarrow> travel_itinerary_response \<Rightarrow> travel_itinerary_response" where
  "execute_request_parser env input r =
     (let md = (workflow_metadata r)\<lparr> current_stage := PARSING_REQUEST \<rparr> in
      case run_stage (ascii ''RequestParser'') (parser_run env) (request_parser md) of
        (result, ae, msgs) \<Rightarrow>
          (let md1 = extend_errors (md\<lparr> request_parser := ae \<rparr>) msgs in
           case result of
             None \<Rightarrow> r\<lparr> workflow_metadata := md1 \<rparr>
           | Some parser_response \<Rightarrow>
               r\<lparr> parsed_request :=
                     Some (if reports_complete parser_response
                           then convert_to_core_travel_request (collected_data parser_response)
                           else create_partial_request_from_response parser_response input),
                   workflow_metadata := md1 \<rparr>))"

text \<open>\<open>_execute_activities_planner\<close>, called with a parsed request.\<close>

definition execute_activities_planner ::
  "workflow_env \<Rightarrow> core_travel_request \<Rightarrow> travel_itinerary_response \<Rightarrow> travel_itinerary_response" where
  "execute_activities_planner env req r =
     (let md = (workflow_metadata r)\<lparr> current_stage := FINDING_PLACES \<rparr> in
      case run_stage (ascii ''ActivitiesPlanner'') (\<lambda>k. planner_run env k req) (activities_planner md) of
        (result, ae, msgs) \<Rightarrow>
          (let md1 = extend_errors (md\<lparr> activities_planner := ae \<rparr>) msgs in
           case result of
             None \<Rightarrow> r\<lparr> workflow_metadata := md1 \<rparr>
           | Some it \<Rightarrow> r\<lparr> itinerary := Some it, workflow_metadata := md1 \<rparr>))"

text \<open>\<open>_execute_accommodation_suggester\<close>, called with an itinerary.\<close>

definition execute_accommodation_suggester ::
  "workflow_env \<Rightarrow> itinerary_output \<Rightarrow> travel_itinerary_response \<Rightarrow> travel_itinerary_response" where
  "execute_accommodation_suggester env it r =
     (let md = (workflow_metadata r)\<lparr> current_stage := FINDING_ACCOMMODATIONS \<rparr> in
      case run_stage (ascii ''AccommodationSuggester'') (\<lambda>k. suggester_run env k it)
             (accommodation_suggester md) of
        (result, ae, msgs) \<Rightarrow>
          (let md1 = extend_errors (md\<lparr> accommodation_suggester := ae \<rparr>) msgs in
           case result of
             None \<Rightarrow> r\<lparr> workflow_metadata := md1 \<rparr>
           | Some acc \<Rightarrow> r\<lparr> accommodations := Some acc, workflow_metadata := md1 \<rparr>))"

text \<open>
  \<open>_assemble_final_response\<close>: an exception while the summary lines are formatted
  is recorded and replaced by a fixed text.
\<close>

definition assemble_final_response ::
  "workflow_env \<Rightarrow> travel_itinerary_response \<Rightarrow> travel_itinerary_response" where
  "assemble_final_response env r =
     (let r1 = r\<lparr> workflow_metadata := (workflow_metadata r)\<lparr> current_stage := ASSEMBLING_RESPONSE \<rparr> \<rparr> in
      case summary_run env r1 of
        Inr text \<Rightarrow> r1\<lparr> summary := Some text \<rparr>
      | Inl e \<Rightarrow>
          r1\<lparr> workflow_metadata := extend_errors (workflow_metadata r1) [ascii ''Error assembling final response: '' @ e],
               summary := Some (ascii ''Error generating summary'') \<rparr>)"

text \<open>
  \<open>execute_workflow\<close>, statement by statement: the response after stage 1, after
  stage 2, which runs only with a parsed request, and after stage 3, which runs only
  with an itinerary; then the assembly and the final mark. Every stage catches the
  exceptions of its attempts, so the handler around the four stages is not entered.
\<close>

definition after_parser :: "workflow_env \<Rightarrow> ustr \<Rightarrow> travel_itinerary_response" where
  "after_parser env input =
     execute_request_parser env input
       (create_empty_response input (create_workflow_metadata (fresh_id env)))"

definition after_planner :: "workflow_env \<Rightarrow> ustr \<Rightarrow> travel_itinerary_response" where
  "after_planner env input =
     (case parsed_request (after_parser env input) of
        None \<Rightarrow> after_parser env input
      | Some req \<Rightarrow> execute_activities_planner env req (after_parser env input))"

definition after_suggester :: "workflow_env \<Rightarrow> ustr \<Rightarrow> travel_itinerary_response" where
  "after_suggester env input =
     (case itinerary (after_planner env input) of
        None \<Rightarrow> after_planner env input
      | Some it \<Rightarrow> execute_accommodation_suggester env it (after_planner env input))"

definition execute_workflow :: "workflow_env \<Rightarrow> ustr \<Rightarrow> travel_itinerary_response" where
  "execute_workflow env input =
     (let r4 = assemble_final_response env (after_suggester env input)
      in r4\<lparr> workflow_metadata := complete_workflow (workflow_metadata r4) \<rparr>)"

text \<open>
  What the retry loop guarantees, started at a given attempt: a result comes from the
  first attempt that returns and completes the agent; no result means that no attempt
  returned and fails the agent, with a message for the error list if the last attempt
  raised.
\<close>

definition stage_ok ::
  "(nat \<Rightarrow> 'a outcome) \<Rightarrow> nat \<Rightarrow> 'a option \<times> agent_execution \<times> ustr list \<Rightarrow> bool" where
  "stage_ok run attempt t =
     (case t of (res, ae', msgs) \<Rightarrow>
        (case res of
           Some v \<Rightarrow> status ae' = COMPLETED \<and> msgs = [] \<and>
             (\<exists>k. attempt \<le> k \<and> k \<le> max_retries \<and> run k = Returns v \<and>
                  (\<forall>j. attempt \<le> j \<and> j < k \<longrightarrow> (\<forall>w. run j \<noteq> Returns w)))
         | None \<Rightarrow> status ae' = FAILED \<and>
             (\<forall>k. attempt \<le> k \<and> k \<le> max_retries \<longrightarrow> (\<forall>v. run k \<noteq> Returns v)) \<and>
             ((\<exists>e. run max_retries = Raises e) \<longrightarrow> msgs \<noteq> [])))"

section \<open>Example inputs\<close>

text \<open>An activity named by one letter, with the mid-range cost estimate.\<close>

definition lettered_activity :: "nat \<Rightarrow> activity" where
  "lettered_activity k =
     \<lparr> activity_name = [65 + k], activity_place = [97 + k], activity_duration = ascii ''2 hours'',
       description = ascii ''Visit'', cost_estimate = Some (rupee # ascii ''500-1000'') \<rparr>"

definition five_activities :: "activity list" where
  "five_activities = map lettered_activity [0, 1, 2, 3, 4]"

definition two_day_request :: core_travel_request where
  "two_day_request =
     CoreTravelRequest (Some (ascii ''Goa, India'')) (Some 2)
       (Some \<lparr> adults = 2, children = 0, total = 2 \<rparr>)
       (Some \<lparr> total_amount = Number (Fin 20000), currency = ascii ''INR'',
               accommodation_type = Some MID_RANGE \<rparr>)"

text \<open>The itinerary of the end-to-end scenario: Mumbai, three days, 25000 INR.\<close>

definition mumbai_itinerary :: itinerary_output where
  "mumbai_itinerary =
     \<lparr> itinerary_destination = ascii ''Mumbai, India'', duration_days = 3,
       total_budget = ascii ''25000 INR'', itinerary_accommodation_type = Some MID_RANGE,
       must_visit_places =
         [\<lparr> place_name = ascii ''Gateway of India'', place_location = ascii ''South Mumbai, Apollo Bunder'',
            significance = ascii ''Historic monument'', category = ascii ''historical'',
            estimated_duration = None, best_time_to_visit = None \<rparr>,
          \<lparr> place_name = ascii ''Marine Drive'', place_location = ascii ''South Mumbai'',
            significance = ascii ''Famous promenade'', category = ascii ''cultural'',
            estimated_duration = None, best_time_to_visit = None \<rparr>],
       daily_itineraries = [], itinerary_total_estimated_cost = Some (rupee # ascii ''10,000-15,000''),
       recommendations = Some (ascii ''Sample recommendations'') \<rparr>"

text \<open>The table of \<open>_fallback_budget_categories\<close> for INR.\<close>

definition inr_table :: json where
  "inr_table = price_table (price_band 1500 3500) (price_band 3500 8000) (price_band 8000 25000)"




text \<open>
  A fresh conversation, and answers of the language model: all four fields with the
  destination Paris, the same with a disambiguation question, a budget of half a
  dollar, and travelers that count nobody.
\<close>

definition empty_request :: core_travel_request where
  "empty_request = CoreTravelRequest None None None None"





text \<open>
  Runs of the workflow: the parser answers at once without completing, the planner
  returns the Mumbai itinerary and every attempt of the suggester raises; the same
  with a planner that raises; the same with a parser that times out.
\<close>

definition suggester_down_env :: workflow_env where
  "suggester_down_env =
     \<lparr> fresh_id = ascii ''0a1b2c3d'',
       parser_run = (\<lambda>k. Returns \<lparr> reports_complete = False, collected_data = empty_request \<rparr>),
       planner_run = (\<lambda>k req. Returns mumbai_itinerary),
       suggester_run = (\<lambda>k it. Raises (ascii ''search unavailable'')),
       summary_run = (\<lambda>r. Inr (ascii ''Status: partial'')) \<rparr>"

definition planner_down_env :: workflow_env where
  "planner_down_env = suggester_down_env\<lparr> planner_run := (\<lambda>k req. Raises (ascii ''research failed'')) \<rparr>"

definition parser_down_env :: workflow_env where
  "parser_down_env = suggester_down_env\<lparr> parser_run := (\<lambda>k. TimesOut) \<rparr>"

section \<open>Properties of the cost-range parser\<close>

























section \<open>Properties of the daily itineraries\<close>

lemma sequenceE_map_Inr:
  "sequenceE (map f xs) = Inr ys \<Longrightarrow> map Inr ys = map f xs"
proof (induction xs arbitrary: ys)
  case Nil
  then show ?case by simp
next
  case (Cons x xs)
  then show ?case by (auto split: sum.splits)
qed

lemma sequenceE_all_Inr:
  "map Inr ys = ms \<Longrightarrow> sequenceE ms = Inr ys"
  by (induction ys arbitrary: ms) auto

lemma py_range_days: "map (\<lambda>day. day + 1) (py_range d) = [1..d]"
proof -
  have "map (\<lambda>k. int k + 1) [0..<n] = [1..int n]" for n
  proof (induction n)
    case 0
    show ?case by simp
  next
    case (Suc n)
    have "[1..int (Suc n)] = [1..int n] @ [int n + 1]"
      by (simp add: upto_rec2 add.commute)
    with Suc show ?case by simp
  qed
  from this [of "nat d"] show ?thesis
    by (cases "0 \<le> d") (simp_all add: py_range_def comp_def)
qed

lemma slice_bound_nonneg: "0 \<le> i \<Longrightarrow> slice_bound n i = min n (nat i)"
  by (simp add: slice_bound_def)

lemma day_activities_slice:
  assumes "0 \<le> p"
  shows "day_activities acts p (int k) = take (nat p) (drop (k * nat p) acts)"
proof -
  have nn: "0 \<le> int k * p" using assms by simp
  have kp: "nat (int k * p) = k * nat p" using assms by (simp add: nat_mult_distrib)
  have i: "int k * p + p = int (k * nat p + nat p)" using assms by simp
  have m: "min (int k * p + p) (int (length acts)) = int (min (k * nat p + nat p) (length acts))"
    unfolding i by (simp only: of_nat_min)
  have nm: "0 \<le> min (int k * p + p) (int (length acts))" unfolding m by simp
  have e: "nat (min (int k * p + p) (int (length acts))) = min (k * nat p + nat p) (length acts)"
    unfolding m by (simp only: nat_int)
  have "day_activities acts p (int k)
      = drop (min (length acts) (k * nat p))
          (take (min (length acts) (min (k * nat p + nat p) (length acts))) acts)"
    unfolding day_activities_def Let_def py_slice_def
      slice_bound_nonneg [OF nn] slice_bound_nonneg [OF nm] kp e ..
  also have "\<dots> = drop (k * nat p) (take (k * nat p + nat p) acts)"
    by (simp add: min_def drop_take)
  also have "\<dots> = take (nat p) (drop (k * nat p) acts)"
    by (simp add: drop_take)
  finally show ?thesis .
qed

lemma concat_slices: "concat (map (\<lambda>k. take m (drop (k * m) xs)) [0..<n]) = take (n * m) xs"
proof (induction n)
  case 0
  show ?case by simp
next
  case (Suc n)
  have "take (n * m + m) xs = take (n * m) xs @ take m (drop (n * m) xs)"
    by (simp add: take_add)
  with Suc show ?case by (simp add: add.commute)
qed

lemma main_day_fields:
  "main_day U acts req p day = Inr x \<Longrightarrow> day_number x = day + 1 \<and> activities x = day_activities acts p day"
  by (auto simp: main_day_def Let_def split: option.splits)

lemma main_itinerary_days:
  assumes "main_itinerary U acts req = Inr days" and "duration req = Some d" and "d \<noteq> 0"
  shows "map day_number days = map (\<lambda>day. day + 1) (py_range d) \<and>
         map activities days = map (day_activities acts (max 2 (int (length acts) div d))) (py_range d)"
proof -
  let ?p = "max 2 (int (length acts) div d)"
  from assms have s: "sequenceE (map (main_day U acts req ?p) (py_range d)) = Inr days"
    by (simp add: main_itinerary_def activities_per_day_def bindE_def)
  have m: "map Inr days = map (main_day U acts req ?p) (py_range d)"
    by (rule sequenceE_map_Inr [OF s])
  then have len: "length days = length (py_range d)" by (metis length_map)
  have "\<forall>i < length days. main_day U acts req ?p (py_range d ! i) = Inr (days ! i)"
  proof (intro allI impI)
    fix i assume i: "i < length days"
    have "map Inr days ! i = map (main_day U acts req ?p) (py_range d) ! i" using m by simp
    then show "main_day U acts req ?p (py_range d ! i) = Inr (days ! i)"
      using i len by simp
  qed
  then have f: "\<forall>i < length days. day_number (days ! i) = py_range d ! i + 1 \<and>
      activities (days ! i) = day_activities acts ?p (py_range d ! i)"
    using main_day_fields by blast
  show ?thesis
    using f len by (auto intro!: nth_equalityI)
qed

lemma fallback_itinerary_days:
  assumes "duration req = Some d" and "d \<noteq> 0"
  shows "\<exists>days. create_fallback_itinerary acts req = Inr days \<and>
         map day_number days = map (\<lambda>day. day + 1) (py_range d) \<and>
         map activities days = map (day_activities acts (max 2 (int (length acts) div d))) (py_range d)"
  using assms
  by (simp add: create_fallback_itinerary_def activities_per_day_def bindE_def comp_def)

lemma daily_itineraries_days:
  assumes "duration req = Some d" and "d \<noteq> 0"
  shows "\<exists>days. create_daily_itineraries U acts req = Inr days \<and>
         map day_number days = map (\<lambda>day. day + 1) (py_range d) \<and>
         map activities days = map (day_activities acts (max 2 (int (length acts) div d))) (py_range d)"
proof (cases "main_itinerary U acts req")
  case (Inl e)
  then show ?thesis
    using fallback_itinerary_days [OF assms, of acts] by (simp add: create_daily_itineraries_def)
next
  case (Inr days)
  then show ?thesis
    using main_itinerary_days [OF Inr assms] by (simp add: create_daily_itineraries_def)
qed

lemma slices_of_range:
  assumes "0 \<le> p"
  shows "map (day_activities acts p) (py_range d) = map (\<lambda>k. take (nat p) (drop (k * nat p) acts)) [0..<nat d]"
  using assms by (simp add: py_range_def comp_def day_activities_slice)

lemma upto_list_facts:
  "xs = [1..d] \<Longrightarrow> xs = [1..d] \<and> distinct xs \<and> sorted xs \<and> set xs = {1..d}"
  by simp

text \<open>
  C3. For a request of duration \<open>d \<ge> 1\<close>, the itinerary builder returns a list of
  days, through its main block or through its fallback, and so does the fallback
  called alone; in each of these lists the day numbers are 1, 2, ..., \<open>d\<close> in this
  order, each once. A result of the main block alone has the same day numbers.
\<close>

theorem day_numbers_contiguous:
  assumes "duration req = Some d" and "1 \<le> d"
  shows "(\<exists>days. create_daily_itineraries U acts req = Inr days \<and>
            map day_number days = [1..d] \<and> distinct (map day_number days) \<and>
            sorted (map day_number days) \<and> set (map day_number days) = {1..d}) \<and>
         (\<exists>days. create_fallback_itinerary acts req = Inr days \<and>
            map day_number days = [1..d] \<and> distinct (map day_number days) \<and>
            sorted (map day_number days) \<and> set (map day_number days) = {1..d}) \<and>
         (\<forall>days. main_itinerary U acts req = Inr days \<longrightarrow> map day_number days = [1..d])"
proof -
  have d: "d \<noteq> 0" using assms(2) by simp
  from daily_itineraries_days [OF assms(1) d, of U acts]
  obtain days where r: "create_daily_itineraries U acts req = Inr days"
    and n: "map day_number days = [1..d]"
    by (auto simp: py_range_days)
  from fallback_itinerary_days [OF assms(1) d, of acts]
  obtain days' where r': "create_fallback_itinerary acts req = Inr days'"
    and n': "map day_number days' = [1..d]"
    by (auto simp: py_range_days)
  have m: "map day_number ds = [1..d]" if "main_itinerary U acts req = Inr ds" for ds
    using main_itinerary_days [OF that assms(1) d] by (simp add: py_range_days)
  show ?thesis
    using r upto_list_facts [OF n] r' upto_list_facts [OF n'] m by blast
qed

theorem day_numbers_contiguous_witness:
  "duration create_fallback_request = Some 3 \<and> (1 :: int) \<le> 3 \<and>
   (\<exists>days. create_daily_itineraries ascii_ucd five_activities create_fallback_request = Inr days \<and>
      map day_number days = [1..3]) \<and>
   (\<exists>days. create_fallback_itinerary five_activities create_fallback_request = Inr days \<and>
      map day_number days = [1..3])"
proof -
  have h: "duration create_fallback_request = Some 3"
    by (simp add: create_fallback_request_def CoreTravelRequest_def)
  have l: "(1 :: int) \<le> 3" by simp
  from day_numbers_contiguous [OF h l, of ascii_ucd five_activities] h l
  show ?thesis by blast
qed

lemma two_day_request_duration: "duration two_day_request = Some 2"
  by (simp add: two_day_request_def CoreTravelRequest_def)

lemma five_activities_two_days:
  "map (day_activities five_activities (max 2 (int (length five_activities) div 2))) (py_range 2)
     = [[lettered_activity 0, lettered_activity 1], [lettered_activity 2, lettered_activity 3]]"
proof -
  have r: "py_range 2 = [0, 1]"
    by (simp add: py_range_def numeral_2_eq_2 upt_rec)
  show ?thesis
    unfolding r
    by (simp add: five_activities_def day_activities_def py_slice_def slice_bound_def)
qed

text \<open>
  C4, as stated, fails: with five activities and two days the per-day count is 2, the
  days hold the first four activities, the second and last day holds two of them, and
  the fifth activity is in no day.
\<close>

theorem remainder_not_absorbed:
  "(case create_daily_itineraries ascii_ucd five_activities two_day_request of
      Inl e \<Rightarrow> False
    | Inr days \<Rightarrow>
        map activities days =
          [[lettered_activity 0, lettered_activity 1], [lettered_activity 2, lettered_activity 3]] \<and>
        lettered_activity 4 \<in> set five_activities \<and>
        lettered_activity 4 \<notin> set (concat (map activities days)))"
proof -
  have d: "(2 :: int) \<noteq> 0" by simp
  from daily_itineraries_days [OF two_day_request_duration d, of ascii_ucd five_activities]
  obtain days where r: "create_daily_itineraries ascii_ucd five_activities two_day_request = Inr days"
    and a: "map activities days =
      map (day_activities five_activities (max 2 (int (length five_activities) div 2))) (py_range 2)"
    by blast
  have "lettered_activity 4 \<in> set five_activities"
    by (simp add: five_activities_def)
  moreover have "lettered_activity 4 \<notin> set (concat (map activities days))"
    unfolding a five_activities_two_days by (simp add: lettered_activity_def)
  ultimately show ?thesis
    using r a five_activities_two_days by simp
qed

text \<open>
  C4, amended. For \<open>n\<close> activities and a duration \<open>d \<ge> 1\<close> the per-day count is
  \<open>max(2, n // d)\<close>; the builder and its fallback return days whose activity lists
  are the consecutive slices of that length of the ordered list, day \<open>k\<close> (from 0)
  starting at index \<open>k\<close> times the count. So the days, read in order, hold the first
  \<open>d\<close> times the count activities of the list: each of these is in exactly one
  day, and no activity is in two days.
\<close>

theorem activities_sliced_greedily:
  assumes "duration req = Some d" and "1 \<le> d"
  shows "activities_per_day (length acts) d = Inr (max 2 (int (length acts) div d)) \<and>
         (\<exists>days. create_daily_itineraries U acts req = Inr days \<and>
            (let per_day = nat (max 2 (int (length acts) div d)) in
             map activities days = map (\<lambda>k. take per_day (drop (k * per_day) acts)) [0..<nat d] \<and>
             concat (map activities days) = take (nat d * per_day) acts)) \<and>
         (\<exists>days. create_fallback_itinerary acts req = Inr days \<and>
            (let per_day = nat (max 2 (int (length acts) div d)) in
             map activities days = map (\<lambda>k. take per_day (drop (k * per_day) acts)) [0..<nat d] \<and>
             concat (map activities days) = take (nat d * per_day) acts))"
proof -
  let ?p = "max 2 (int (length acts) div d)"
  have d: "d \<noteq> 0" using assms(2) by simp
  have p: "0 \<le> ?p" by simp
  have apd: "activities_per_day (length acts) d = Inr ?p"
    using d by (simp add: activities_per_day_def)
  from daily_itineraries_days [OF assms(1) d, of U acts]
  obtain days where r: "create_daily_itineraries U acts req = Inr days"
    and a: "map activities days = map (\<lambda>k. take (nat ?p) (drop (k * nat ?p) acts)) [0..<nat d]"
    unfolding slices_of_range [OF p] by blast
  from fallback_itinerary_days [OF assms(1) d, of acts]
  obtain days' where r': "create_fallback_itinerary acts req = Inr days'"
    and a': "map activities days' = map (\<lambda>k. take (nat ?p) (drop (k * nat ?p) acts)) [0..<nat d]"
    unfolding slices_of_range [OF p] by blast
  have c: "concat (map activities days) = take (nat d * nat ?p) acts"
    unfolding a by (rule concat_slices)
  have c': "concat (map activities days') = take (nat d * nat ?p) acts"
    unfolding a' by (rule concat_slices)
  show ?thesis
    unfolding Let_def using apd r a c r' a' c' by blast
qed

theorem activities_sliced_greedily_witness:
  "duration two_day_request = Some 2 \<and> (1 :: int) \<le> 2 \<and>
   activities_per_day (length five_activities) 2 = Inr 2 \<and>
   (\<exists>days. create_daily_itineraries ascii_ucd five_activities two_day_request = Inr days \<and>
      concat (map activities days) = take 4 five_activities)"
proof -
  have h: "(1 :: int) \<le> 2" by simp
  have l: "max 2 (int (length five_activities) div 2) = 2"
    by (simp add: five_activities_def)
  from activities_sliced_greedily [OF two_day_request_duration h, of five_activities ascii_ucd]
  show ?thesis
    unfolding l Let_def using two_day_request_duration by auto
qed

section \<open>Properties of the accommodation suggester\<close>

lemma split_25000: "py_split_ws (ascii ''25000 INR'') = [ascii ''25000'', ascii ''INR'']"
  by (simp add: ascii_def py_isspace_def)

lemma to_ascii_decimal_ascii: "\<forall>c \<in> set s. c < 128 \<Longrightarrow> to_ascii_decimal U s = Some s"
  by (induction s) (auto simp: to_ascii_char_def)

lemma float_25000: "py_float U (ascii ''25000'') = Some (Fin 25000)"
proof -
  have "to_ascii_decimal U (ascii ''25000'') = Some (ascii ''25000'')"
    by (rule to_ascii_decimal_ascii) (simp add: ascii_def)
  then show ?thesis
    by (simp add: py_float_def parse_float_ascii_def ascii_def c_strip_def c_isspace_def
        parse_abs_float_def ascii_lower_def is_digit_def parse_exponent_def dec_value_def pow10_def)
qed

lemma mumbai_budget_info:
  "extract_budget_info U mumbai_itinerary =
     Inr \<lparr> info_total_budget = Fin 25000, info_currency = ascii ''INR'',
           accommodation_budget = Fin 10000, nightly_budget = Fin (10000 / 3) \<rparr>"
  by (simp add: extract_budget_info_def budget_info_body_def mumbai_itinerary_def split_25000
      float_25000 bindE_def)

lemma getitem_simps:
  "py_getitem (price_table l m h) (ascii ''low'') = Inr l"
  "py_getitem (price_table l m h) (ascii ''medium'') = Inr m"
  "py_getitem (price_table l m h) (ascii ''high'') = Inr h"
  "py_getitem (price_band lo hi) (ascii ''min'') = Inr (JNum (Fin lo))"
  "py_getitem (price_band lo hi) (ascii ''max'') = Inr (JNum (Fin hi))"
  by (simp_all add: py_getitem_def price_table_def price_band_def ascii_def)

lemma classify_well_formed:
  assumes "py_getitem cats (ascii ''low'') = Inr low"
    and "py_getitem low (ascii ''max'') = Inr (JNum (Fin low_max))"
    and "py_getitem cats (ascii ''medium'') = Inr medium"
    and "py_getitem medium (ascii ''max'') = Inr (JNum (Fin medium_max))"
  shows "classify_budget_tier (Fin b) cats =
           (if b \<le> low_max then ascii ''low''
            else if b \<le> medium_max then ascii ''medium'' else ascii ''high'')"
  using assms by (simp add: classify_budget_tier_def classify_body_def bindE_def py_le_json_def)

lemma fallback_table_inr:
  "py_getitem (fallback_budget_categories dest (ascii ''INR'')) (ascii ''budget_categories'') = Inr inr_table"
  by (simp add: fallback_budget_categories_def py_getitem_def inr_table_def ascii_def)


text \<open>
  C2. On a table whose entries \<open>low.max\<close> and \<open>medium.max\<close> are finite numbers,
  a finite nightly budget \<open>b\<close> is classified as low when \<open>b \<le> low.max\<close>, as
  medium when \<open>low.max < b \<le> medium.max\<close>, and as high otherwise; whenever a lookup
  or a comparison in the classifier raises, the tier is medium. For 25000 INR over 3
  days the allocation is 10000, the nightly budget is 10000 / 3 (between 3333.33 and
  3333.34), and the INR fallback table, with \<open>low.max\<close> 3500 and \<open>medium.max\<close>
  8000, classifies it as low.
\<close>

theorem classify_budget_tier_correct:
  "(\<forall>cats low medium low_max medium_max b.
      py_getitem cats (ascii ''low'') = Inr low \<and>
      py_getitem low (ascii ''max'') = Inr (JNum (Fin low_max)) \<and>
      py_getitem cats (ascii ''medium'') = Inr medium \<and>
      py_getitem medium (ascii ''max'') = Inr (JNum (Fin medium_max)) \<longrightarrow>
      classify_budget_tier (Fin b) cats =
        (if b \<le> low_max then ascii ''low''
         else if b \<le> medium_max then ascii ''medium'' else ascii ''high'')) \<and>
   (\<forall>nightly cats e. classify_body nightly cats = Inl e \<longrightarrow>
      classify_budget_tier nightly cats = ascii ''medium'') \<and>
   extract_budget_info U mumbai_itinerary =
     Inr \<lparr> info_total_budget = Fin 25000, info_currency = ascii ''INR'',
           accommodation_budget = Fin 10000, nightly_budget = Fin (10000 / 3) \<rparr> \<and>
   (333333 / 100 \<le> (10000 / 3 :: real) \<and> (10000 / 3 :: real) < 333334 / 100) \<and>
   py_getitem (fallback_budget_categories dest (ascii ''INR'')) (ascii ''budget_categories'')
     = Inr inr_table \<and>
   bindE (py_getitem inr_table (ascii ''low'')) (\<lambda>low. py_getitem low (ascii ''max''))
     = Inr (JNum (Fin 3500)) \<and>
   bindE (py_getitem inr_table (ascii ''medium'')) (\<lambda>medium. py_getitem medium (ascii ''max''))
     = Inr (JNum (Fin 8000)) \<and>
   classify_budget_tier (Fin (10000 / 3)) inr_table = ascii ''low''"
proof -
  have a: "classify_budget_tier (Fin b) cats =
        (if b \<le> low_max then ascii ''low''
         else if b \<le> medium_max then ascii ''medium'' else ascii ''high'')"
    if "py_getitem cats (ascii ''low'') = Inr low \<and>
      py_getitem low (ascii ''max'') = Inr (JNum (Fin low_max)) \<and>
      py_getitem cats (ascii ''medium'') = Inr medium \<and>
      py_getitem medium (ascii ''max'') = Inr (JNum (Fin medium_max))"
    for cats low medium low_max medium_max b
    using that classify_well_formed by blast
  have b: "classify_budget_tier nightly cats = ascii ''medium''"
    if "classify_body nightly cats = Inl e" for nightly cats e
    using that by (simp add: classify_budget_tier_def)
  have c: "(333333 / 100 \<le> (10000 / 3 :: real) \<and> (10000 / 3 :: real) < 333334 / 100)"
    by simp
  have l: "bindE (py_getitem inr_table (ascii ''low'')) (\<lambda>low. py_getitem low (ascii ''max''))
     = Inr (JNum (Fin 3500))"
    by (simp add: inr_table_def getitem_simps bindE_def)
  have m: "bindE (py_getitem inr_table (ascii ''medium'')) (\<lambda>medium. py_getitem medium (ascii ''max''))
     = Inr (JNum (Fin 8000))"
    by (simp add: inr_table_def getitem_simps bindE_def)
  have t: "classify_budget_tier (Fin (10000 / 3)) inr_table = ascii ''low''"
    unfolding inr_table_def
    by (subst classify_well_formed [OF getitem_simps(1) getitem_simps(5) getitem_simps(2) getitem_simps(5)]) simp
  show ?thesis
    using a b c l m t mumbai_budget_info [of U] fallback_table_inr [of dest] by blast
qed

theorem classify_budget_tier_correct_witness:
  "py_getitem inr_table (ascii ''low'') = Inr (price_band 1500 3500) \<and>
   py_getitem (price_band 1500 3500) (ascii ''max'') = Inr (JNum (Fin 3500)) \<and>
   py_getitem inr_table (ascii ''medium'') = Inr (price_band 3500 8000) \<and>
   py_getitem (price_band 3500 8000) (ascii ''max'') = Inr (JNum (Fin 8000)) \<and>
   classify_budget_tier (Fin 5000) inr_table = ascii ''medium'' \<and>
   classify_budget_tier (Fin 9000) inr_table = ascii ''high'' \<and>
   classify_body (Fin 5000) JNull = Inl TypeError \<and>
   classify_budget_tier (Fin 5000) JNull = ascii ''medium''"
proof -
  note t = classify_budget_tier_correct [of ascii_ucd "[]"]
  have g: "py_getitem inr_table (ascii ''low'') = Inr (price_band 1500 3500) \<and>
   py_getitem (price_band 1500 3500) (ascii ''max'') = Inr (JNum (Fin 3500)) \<and>
   py_getitem inr_table (ascii ''medium'') = Inr (price_band 3500 8000) \<and>
   py_getitem (price_band 3500 8000) (ascii ''max'') = Inr (JNum (Fin 8000))"
    by (simp add: inr_table_def getitem_simps)
  from t g have "classify_budget_tier (Fin 5000) inr_table =
        (if (5000 :: real) \<le> 3500 then ascii ''low''
         else if (5000 :: real) \<le> 8000 then ascii ''medium'' else ascii ''high'')"
    by blast
  then have m: "classify_budget_tier (Fin 5000) inr_table = ascii ''medium''" by simp
  from t g have "classify_budget_tier (Fin 9000) inr_table =
        (if (9000 :: real) \<le> 3500 then ascii ''low''
         else if (9000 :: real) \<le> 8000 then ascii ''medium'' else ascii ''high'')"
    by blast
  then have h: "classify_budget_tier (Fin 9000) inr_table = ascii ''high''" by simp
  have n: "classify_body (Fin 5000) JNull = Inl TypeError"
    by (simp add: classify_body_def bindE_def py_getitem_def)
  from t n have "classify_budget_tier (Fin 5000) JNull = ascii ''medium''" by blast
  then show ?thesis using g m h n by blast
qed











section \<open>Properties of the request parser\<close>

lemma pf_div_int_error: "pf_div_int x n = Inl e \<longleftrightarrow> n = 0 \<and> e = ZeroDivisionError"
  by auto

































section \<open>Properties of the sequential workflow\<close>

lemma stage_ok_step:
  assumes "stage_ok run (Suc attempt) t" and "\<forall>w. run attempt \<noteq> Returns w"
  shows "stage_ok run attempt t"
proof -
  have *: "attempt \<le> j \<Longrightarrow> j = attempt \<or> Suc attempt \<le> j" for j by auto
  obtain res ae' msgs where t: "t = (res, ae', msgs)" by (cases t) auto
  show ?thesis
  proof (cases res)
    case None
    with assms t show ?thesis
      unfolding stage_ok_def by (auto dest: *)
  next
    case (Some v)
    with assms(1) t obtain k where k: "Suc attempt \<le> k" "k \<le> max_retries" "run k = Returns v"
      "\<forall>j. Suc attempt \<le> j \<and> j < k \<longrightarrow> (\<forall>w. run j \<noteq> Returns w)"
      and s: "status ae' = COMPLETED" "msgs = []"
      unfolding stage_ok_def by auto
    have "\<forall>j. attempt \<le> j \<and> j < k \<longrightarrow> (\<forall>w. run j \<noteq> Returns w)"
      using k(4) assms(2) by (auto dest: *)
    moreover have "attempt \<le> k" using k(1) by simp
    ultimately show ?thesis
      unfolding stage_ok_def t Some using k(2,3) s by auto
  qed
qed

lemma attempt_loop_ok:
  "attempt + left = max_retries + 1 \<Longrightarrow> 0 < left \<Longrightarrow>
     stage_ok run attempt (attempt_loop label run left attempt ae)"
proof (induction left arbitrary: attempt ae)
  case 0
  then show ?case by simp
next
  case (Suc left)
  show ?case
  proof (cases "run attempt")
    case (Returns v)
    have "attempt \<le> max_retries" using Suc.prems(1) by simp
    with Returns show ?thesis
      by (auto simp: stage_ok_def start_def complete_def Let_def)
  next
    case TimesOut
    show ?thesis
    proof (cases "attempt < max_retries")
      case True
      then have l: "0 < left" "Suc attempt + left = max_retries + 1" using Suc.prems(1) by simp_all
      have "stage_ok run (Suc attempt)
          (attempt_loop label run left (Suc attempt) ((start ae)\<lparr> retry_count := retry_count (start ae) + 1 \<rparr>))"
        by (rule Suc.IH [OF l(2) l(1)])
      then have "stage_ok run attempt
          (attempt_loop label run left (Suc attempt) ((start ae)\<lparr> retry_count := retry_count (start ae) + 1 \<rparr>))"
        by (rule stage_ok_step) (simp add: TimesOut)
      then show ?thesis using TimesOut True by (simp add: Let_def)
    next
      case False
      then have "attempt = max_retries" using Suc.prems(1) by simp
      then show ?thesis
        using TimesOut by (auto simp: stage_ok_def start_def fail_def Let_def)
    qed
  next
    case (Raises e)
    show ?thesis
    proof (cases "attempt < max_retries")
      case True
      then have l: "0 < left" "Suc attempt + left = max_retries + 1" using Suc.prems(1) by simp_all
      have "stage_ok run (Suc attempt)
          (attempt_loop label run left (Suc attempt) ((start ae)\<lparr> retry_count := retry_count (start ae) + 1 \<rparr>))"
        by (rule Suc.IH [OF l(2) l(1)])
      then have "stage_ok run attempt
          (attempt_loop label run left (Suc attempt) ((start ae)\<lparr> retry_count := retry_count (start ae) + 1 \<rparr>))"
        by (rule stage_ok_step) (simp add: Raises)
      then show ?thesis using Raises True by (simp add: Let_def)
    next
      case False
      then have "attempt = max_retries" using Suc.prems(1) by simp
      then show ?thesis
        using Raises by (auto simp: stage_ok_def start_def fail_def Let_def)
    qed
  qed
qed

lemma run_stage_ok: "stage_ok run 0 (run_stage label run ae)"
  unfolding run_stage_def by (rule attempt_loop_ok) simp_all

lemma run_stage_result:
  assumes "run_stage label run ae = (res, ae', msgs)"
  shows "(case res of
            Some v \<Rightarrow> status ae' = COMPLETED \<and> msgs = [] \<and>
              (\<exists>k \<le> max_retries. run k = Returns v \<and> (\<forall>j < k. \<forall>w. run j \<noteq> Returns w))
          | None \<Rightarrow> status ae' = FAILED \<and> (\<forall>k \<le> max_retries. \<forall>v. run k \<noteq> Returns v) \<and>
              ((\<exists>e. run max_retries = Raises e) \<longrightarrow> msgs \<noteq> []))"
  using run_stage_ok [of run label ae] unfolding assms stage_ok_def
  by (auto split: option.splits)

lemma run_stage_fails:
  assumes "\<forall>k \<le> max_retries. \<forall>v. run k \<noteq> Returns v"
  shows "\<exists>ae' msgs. run_stage label run ae = (None, ae', msgs) \<and> status ae' = FAILED \<and>
           ((\<exists>e. run max_retries = Raises e) \<longrightarrow> msgs \<noteq> [])"
proof -
  obtain res ae' msgs where r: "run_stage label run ae = (res, ae', msgs)"
    by (cases "run_stage label run ae") auto
  from run_stage_result [OF r] assms have "res = None"
    by (cases res) auto
  with run_stage_result [OF r] r show ?thesis by auto
qed

lemma run_stage_first_success:
  assumes "k \<le> max_retries" and "\<forall>j < k. \<forall>w. run j \<noteq> Returns w" and "run k = Returns v"
  shows "\<exists>ae'. run_stage label run ae = (Some v, ae', []) \<and> status ae' = COMPLETED"
proof -
  obtain res ae' msgs where r: "run_stage label run ae = (res, ae', msgs)"
    by (cases "run_stage label run ae") auto
  show ?thesis
  proof (cases res)
    case None
    with run_stage_result [OF r] assms(1,3) show ?thesis by auto
  next
    case (Some u)
    with run_stage_result [OF r] obtain m where m: "m \<le> max_retries" "run m = Returns u"
      "\<forall>j < m. \<forall>w. run j \<noteq> Returns w" and s: "status ae' = COMPLETED" "msgs = []"
      by auto
    have "m = k"
    proof (rule ccontr)
      assume "m \<noteq> k"
      then consider "m < k" | "k < m" by linarith
      then show False
      proof cases
        case 1
        with assms(2) m(2) show False by auto
      next
        case 2
        with m(3) assms(3) show False by auto
      qed
    qed
    with m(2) assms(3) have "u = v" by simp
    with r Some s show ?thesis by simp
  qed
qed


lemma parser_stage:
  "\<exists>res ae msgs.
     run_stage (ascii ''RequestParser'') (parser_run env) (request_parser (workflow_metadata r)) = (res, ae, msgs) \<and>
     execute_request_parser env input r =
       r\<lparr> parsed_request :=
             (case res of
                None \<Rightarrow> parsed_request r
              | Some pr \<Rightarrow>
                  Some (if reports_complete pr
                        then convert_to_core_travel_request (collected_data pr)
                        else create_partial_request_from_response pr input)),
           workflow_metadata := extend_errors ((workflow_metadata r)\<lparr> current_stage := PARSING_REQUEST,
                                                     request_parser := ae \<rparr>) msgs \<rparr>"
proof -
  obtain res ae msgs where t:
    "run_stage (ascii ''RequestParser'') (parser_run env) (request_parser (workflow_metadata r)) = (res, ae, msgs)"
    by (metis prod_cases3)
  show ?thesis
    by (cases res) (simp_all add: execute_request_parser_def Let_def t)
qed

lemma planner_stage:
  "\<exists>res ae msgs.
     run_stage (ascii ''ActivitiesPlanner'') (\<lambda>k. planner_run env k req) (activities_planner (workflow_metadata r))
       = (res, ae, msgs) \<and>
     execute_activities_planner env req r =
       r\<lparr> itinerary := (case res of None \<Rightarrow> itinerary r | Some it \<Rightarrow> Some it),
           workflow_metadata := extend_errors ((workflow_metadata r)\<lparr> current_stage := FINDING_PLACES,
                                                     activities_planner := ae \<rparr>) msgs \<rparr>"
proof -
  obtain res ae msgs where t:
    "run_stage (ascii ''ActivitiesPlanner'') (\<lambda>k. planner_run env k req) (activities_planner (workflow_metadata r))
       = (res, ae, msgs)"
    by (metis prod_cases3)
  show ?thesis
    by (cases res) (simp_all add: execute_activities_planner_def Let_def t)
qed

lemma suggester_stage:
  "\<exists>res ae msgs.
     run_stage (ascii ''AccommodationSuggester'') (\<lambda>k. suggester_run env k it)
         (accommodation_suggester (workflow_metadata r)) = (res, ae, msgs) \<and>
     execute_accommodation_suggester env it r =
       r\<lparr> accommodations := (case res of None \<Rightarrow> accommodations r | Some acc \<Rightarrow> Some acc),
           workflow_metadata := extend_errors ((workflow_metadata r)\<lparr> current_stage := FINDING_ACCOMMODATIONS,
                                                     accommodation_suggester := ae \<rparr>) msgs \<rparr>"
proof -
  obtain res ae msgs where t:
    "run_stage (ascii ''AccommodationSuggester'') (\<lambda>k. suggester_run env k it)
         (accommodation_suggester (workflow_metadata r)) = (res, ae, msgs)"
    by (metis prod_cases3)
  show ?thesis
    by (cases res) (simp_all add: execute_accommodation_suggester_def Let_def t)
qed

lemma execute_workflow_fields:
  "parsed_request (execute_workflow env input) = parsed_request (after_suggester env input)"
  "itinerary (execute_workflow env input) = itinerary (after_suggester env input)"
  "accommodations (execute_workflow env input) = accommodations (after_suggester env input)"
  "request_parser (workflow_metadata (execute_workflow env input))
     = request_parser (workflow_metadata (after_suggester env input))"
  "activities_planner (workflow_metadata (execute_workflow env input))
     = activities_planner (workflow_metadata (after_suggester env input))"
  "accommodation_suggester (workflow_metadata (execute_workflow env input))
     = accommodation_suggester (workflow_metadata (after_suggester env input))"
  "current_stage (workflow_metadata (execute_workflow env input)) = STAGE_COMPLETED"
  "overall_status (workflow_metadata (execute_workflow env input)) = ascii ''completed''"
  by (simp_all add: execute_workflow_def assemble_final_response_def complete_workflow_def
      extend_errors_def Let_def split: sum.splits)

lemma execute_workflow_errors:
  "errors (workflow_metadata (after_suggester env input)) \<noteq> [] \<Longrightarrow>
     errors (workflow_metadata (execute_workflow env input)) \<noteq> []"
  by (simp add: execute_workflow_def assemble_final_response_def complete_workflow_def
      extend_errors_def Let_def split: sum.splits)

lemmas fresh_response =
  create_empty_response_def create_workflow_metadata_def AgentExecution_def extend_errors_def

lemma planner_keeps:
  "parsed_request (execute_activities_planner env req r) = parsed_request r"
  "accommodations (execute_activities_planner env req r) = accommodations r"
  "request_parser (workflow_metadata (execute_activities_planner env req r)) = request_parser (workflow_metadata r)"
  "accommodation_suggester (workflow_metadata (execute_activities_planner env req r))
     = accommodation_suggester (workflow_metadata r)"
  using planner_stage [of env req r] by (auto simp: extend_errors_def)

lemma suggester_keeps:
  "parsed_request (execute_accommodation_suggester env it r) = parsed_request r"
  "itinerary (execute_accommodation_suggester env it r) = itinerary r"
  "request_parser (workflow_metadata (execute_accommodation_suggester env it r)) = request_parser (workflow_metadata r)"
  "activities_planner (workflow_metadata (execute_accommodation_suggester env it r))
     = activities_planner (workflow_metadata r)"
  using suggester_stage [of env it r] by (auto simp: extend_errors_def)

lemma parser_keeps:
  "itinerary (execute_request_parser env input r) = itinerary r"
  "accommodations (execute_request_parser env input r) = accommodations r"
  "activities_planner (workflow_metadata (execute_request_parser env input r)) = activities_planner (workflow_metadata r)"
  "accommodation_suggester (workflow_metadata (execute_request_parser env input r))
     = accommodation_suggester (workflow_metadata r)"
  using parser_stage [of env r input] by (auto simp: extend_errors_def)

lemma three_stages_eq:
  "after_suggester env input =
     (case itinerary (after_planner env input) of
        None \<Rightarrow> after_planner env input
      | Some it \<Rightarrow> execute_accommodation_suggester env it (after_planner env input))"
  by (rule after_suggester_def)

lemma after_parser_fresh:
  "itinerary (after_parser env input) = None"
  "accommodations (after_parser env input) = None"
  "activities_planner (workflow_metadata (after_parser env input)) = AgentExecution (ascii ''ActivitiesPlanner'')"
  "accommodation_suggester (workflow_metadata (after_parser env input))
     = AgentExecution (ascii ''AccommodationSuggester'')"
  by (simp_all add: after_parser_def parser_keeps create_empty_response_def create_workflow_metadata_def)

lemma after_planner_keeps:
  "parsed_request (after_planner env input) = parsed_request (after_parser env input)"
  "accommodations (after_planner env input) = None"
  "request_parser (workflow_metadata (after_planner env input)) = request_parser (workflow_metadata (after_parser env input))"
  "accommodation_suggester (workflow_metadata (after_planner env input))
     = AgentExecution (ascii ''AccommodationSuggester'')"
  by (simp_all add: after_planner_def planner_keeps after_parser_fresh split: option.splits)

lemma three_stages_keeps:
  "parsed_request (after_suggester env input) = parsed_request (after_parser env input)"
  "itinerary (after_suggester env input) = itinerary (after_planner env input)"
  "request_parser (workflow_metadata (after_suggester env input)) = request_parser (workflow_metadata (after_parser env input))"
  "activities_planner (workflow_metadata (after_suggester env input))
     = activities_planner (workflow_metadata (after_planner env input))"
  by (simp_all add: three_stages_eq suggester_keeps after_planner_keeps split: option.splits)

lemma after_parser_result:
  "\<exists>res ae msgs.
     run_stage (ascii ''RequestParser'') (parser_run env) (AgentExecution (ascii ''RequestParser''))
       = (res, ae, msgs) \<and>
     request_parser (workflow_metadata (after_parser env input)) = ae \<and>
     errors (workflow_metadata (after_parser env input)) = msgs \<and>
     parsed_request (after_parser env input) =
       (case res of
          None \<Rightarrow> None
        | Some pr \<Rightarrow>
            Some (if reports_complete pr
                  then convert_to_core_travel_request (collected_data pr)
                  else create_partial_request_from_response pr input))"
proof -
  let ?r0 = "create_empty_response input (create_workflow_metadata (fresh_id env))"
  have a: "request_parser (workflow_metadata ?r0) = AgentExecution (ascii ''RequestParser'')"
    by (simp add: create_empty_response_def create_workflow_metadata_def)
  from parser_stage [of env ?r0 input] obtain res ae msgs where
    t: "run_stage (ascii ''RequestParser'') (parser_run env) (AgentExecution (ascii ''RequestParser''))
       = (res, ae, msgs)"
    and e: "after_parser env input =
       ?r0\<lparr> parsed_request :=
             (case res of
                None \<Rightarrow> parsed_request ?r0
              | Some pr \<Rightarrow>
                  Some (if reports_complete pr
                        then convert_to_core_travel_request (collected_data pr)
                        else create_partial_request_from_response pr input)),
           workflow_metadata := extend_errors ((workflow_metadata ?r0)\<lparr> current_stage := PARSING_REQUEST,
                                                     request_parser := ae \<rparr>) msgs \<rparr>"
    unfolding a after_parser_def by blast
  have "request_parser (workflow_metadata (after_parser env input)) = ae"
    unfolding e by (simp add: extend_errors_def)
  moreover have "errors (workflow_metadata (after_parser env input)) = msgs"
    unfolding e by (simp add: extend_errors_def create_empty_response_def create_workflow_metadata_def)
  moreover have "parsed_request (after_parser env input) =
       (case res of
          None \<Rightarrow> None
        | Some pr \<Rightarrow>
            Some (if reports_complete pr
                  then convert_to_core_travel_request (collected_data pr)
                  else create_partial_request_from_response pr input))"
    unfolding e by (cases res) (simp_all add: create_empty_response_def)
  ultimately show ?thesis using t by blast
qed

lemma parser_failure:
  assumes "\<forall>k \<le> max_retries. \<forall>v. parser_run env k \<noteq> Returns v"
  shows "parsed_request (after_suggester env input) = None \<and>
         itinerary (after_suggester env input) = None \<and>
         accommodations (after_suggester env input) = None \<and>
         status (request_parser (workflow_metadata (after_suggester env input))) = FAILED \<and>
         status (activities_planner (workflow_metadata (after_suggester env input))) = PENDING \<and>
         status (accommodation_suggester (workflow_metadata (after_suggester env input))) = PENDING"
proof -
  let ?r1 = "after_parser env input"
  from after_parser_result [of env input] obtain res ae msgs where
    t: "run_stage (ascii ''RequestParser'') (parser_run env) (AgentExecution (ascii ''RequestParser''))
       = (res, ae, msgs)"
    and q: "request_parser (workflow_metadata ?r1) = ae"
    and r: "parsed_request ?r1 = (case res of None \<Rightarrow> None | Some pr \<Rightarrow>
            Some (if reports_complete pr
                  then convert_to_core_travel_request (collected_data pr)
                  else create_partial_request_from_response pr input))"
    by blast
  from run_stage_fails [OF assms, of "ascii ''RequestParser''" "AgentExecution (ascii ''RequestParser'')"] t
  have n: "res = None" and f: "status ae = FAILED" by auto
  have p1: "parsed_request ?r1 = None" using r n by simp
  have e: "after_planner env input = ?r1" by (simp add: after_planner_def p1)
  have "after_suggester env input = ?r1"
    by (simp add: three_stages_eq e after_parser_fresh)
  then show ?thesis
    using p1 f q by (simp add: after_parser_fresh AgentExecution_def)
qed

lemma planner_failure:
  assumes p: "parsed_request (after_suggester env input) = Some req"
    and a: "\<forall>k \<le> max_retries. \<forall>v. planner_run env k req \<noteq> Returns v"
  shows "itinerary (after_suggester env input) = None \<and>
         accommodations (after_suggester env input) = None \<and>
         status (request_parser (workflow_metadata (after_suggester env input))) = COMPLETED \<and>
         status (activities_planner (workflow_metadata (after_suggester env input))) = FAILED \<and>
         status (accommodation_suggester (workflow_metadata (after_suggester env input))) = PENDING"
proof -
  let ?r1 = "after_parser env input"
  have p1: "parsed_request ?r1 = Some req" using p by (simp add: three_stages_keeps)
  from after_parser_result [of env input] obtain res ae msgs where
    t: "run_stage (ascii ''RequestParser'') (parser_run env) (AgentExecution (ascii ''RequestParser''))
       = (res, ae, msgs)"
    and q: "request_parser (workflow_metadata ?r1) = ae"
    and r: "parsed_request ?r1 = (case res of None \<Rightarrow> None | Some pr \<Rightarrow>
            Some (if reports_complete pr
                  then convert_to_core_travel_request (collected_data pr)
                  else create_partial_request_from_response pr input))"
    by blast
  have c: "status ae = COMPLETED"
    using run_stage_result [OF t] p1 r by (cases res) simp_all
  from planner_stage [of env req ?r1] obtain res2 ae2 msgs2 where
    t2: "run_stage (ascii ''ActivitiesPlanner'') (\<lambda>k. planner_run env k req)
           (activities_planner (workflow_metadata ?r1)) = (res2, ae2, msgs2)"
    and r2: "execute_activities_planner env req ?r1 =
       ?r1\<lparr> itinerary := (case res2 of None \<Rightarrow> itinerary ?r1 | Some it \<Rightarrow> Some it),
             workflow_metadata := extend_errors ((workflow_metadata ?r1)\<lparr> current_stage := FINDING_PLACES,
                                                       activities_planner := ae2 \<rparr>) msgs2 \<rparr>"
    by blast
  from run_stage_fails [OF a, of "ascii ''ActivitiesPlanner''" "activities_planner (workflow_metadata ?r1)"] t2
  have n2: "res2 = None" and f2: "status ae2 = FAILED" by auto
  have e: "after_planner env input = execute_activities_planner env req ?r1"
    by (simp add: after_planner_def p1)
  have i: "itinerary (after_planner env input) = None"
    unfolding e r2 n2 by (simp add: after_parser_fresh)
  have s: "status (activities_planner (workflow_metadata (after_planner env input))) = FAILED"
    unfolding e r2 using f2 by (simp add: extend_errors_def)
  have "after_suggester env input = after_planner env input"
    by (simp add: three_stages_eq i)
  then show ?thesis
    using i s c q by (simp add: after_planner_keeps AgentExecution_def)
qed

lemma suggester_failure:
  assumes p: "parsed_request (after_suggester env input) = Some req"
    and i: "itinerary (after_suggester env input) = Some it"
    and a: "\<forall>k \<le> max_retries. \<exists>e. suggester_run env k it = Raises e"
  shows "accommodations (after_suggester env input) = None \<and>
         errors (workflow_metadata (after_suggester env input)) \<noteq> [] \<and>
         status (request_parser (workflow_metadata (after_suggester env input))) = COMPLETED \<and>
         status (activities_planner (workflow_metadata (after_suggester env input))) = COMPLETED \<and>
         status (accommodation_suggester (workflow_metadata (after_suggester env input))) = FAILED"
proof -
  let ?r1 = "after_parser env input" and ?r2 = "after_planner env input"
  have p1: "parsed_request ?r1 = Some req" using p by (simp add: three_stages_keeps)
  have i2: "itinerary ?r2 = Some it" using i by (simp add: three_stages_keeps)
  from after_parser_result [of env input] obtain res ae msgs where
    t: "run_stage (ascii ''RequestParser'') (parser_run env) (AgentExecution (ascii ''RequestParser''))
       = (res, ae, msgs)"
    and q: "request_parser (workflow_metadata ?r1) = ae"
    and r: "parsed_request ?r1 = (case res of None \<Rightarrow> None | Some pr \<Rightarrow>
            Some (if reports_complete pr
                  then convert_to_core_travel_request (collected_data pr)
                  else create_partial_request_from_response pr input))"
    by blast
  have c: "status ae = COMPLETED"
    using run_stage_result [OF t] p1 r by (cases res) simp_all
  from planner_stage [of env req ?r1] obtain res2 ae2 msgs2 where
    t2: "run_stage (ascii ''ActivitiesPlanner'') (\<lambda>k. planner_run env k req)
           (activities_planner (workflow_metadata ?r1)) = (res2, ae2, msgs2)"
    and r2: "execute_activities_planner env req ?r1 =
       ?r1\<lparr> itinerary := (case res2 of None \<Rightarrow> itinerary ?r1 | Some it \<Rightarrow> Some it),
             workflow_metadata := extend_errors ((workflow_metadata ?r1)\<lparr> current_stage := FINDING_PLACES,
                                                       activities_planner := ae2 \<rparr>) msgs2 \<rparr>"
    by blast
  have e: "?r2 = execute_activities_planner env req ?r1"
    by (simp add: after_planner_def p1)
  have "res2 \<noteq> None" using i2 unfolding e r2 by (cases res2) (simp_all add: after_parser_fresh)
  then have c2: "status ae2 = COMPLETED"
    using run_stage_result [OF t2] by (cases res2) simp_all
  have s2: "activities_planner (workflow_metadata ?r2) = ae2"
    unfolding e r2 by (simp add: extend_errors_def)
  from suggester_stage [of env it ?r2] obtain res3 ae3 msgs3 where
    t3: "run_stage (ascii ''AccommodationSuggester'') (\<lambda>k. suggester_run env k it)
         (accommodation_suggester (workflow_metadata ?r2)) = (res3, ae3, msgs3)"
    and r3: "execute_accommodation_suggester env it ?r2 =
       ?r2\<lparr> accommodations := (case res3 of None \<Rightarrow> accommodations ?r2 | Some acc \<Rightarrow> Some acc),
           workflow_metadata := extend_errors ((workflow_metadata ?r2)\<lparr> current_stage := FINDING_ACCOMMODATIONS,
                                                     accommodation_suggester := ae3 \<rparr>) msgs3 \<rparr>"
    by blast
  have nr: "\<forall>k \<le> max_retries. \<forall>v. suggester_run env k it \<noteq> Returns v"
    using a by (metis outcome.distinct(3))
  have "\<exists>e. suggester_run env max_retries it = Raises e" using a by simp
  with run_stage_fails [OF nr, of "ascii ''AccommodationSuggester''"
      "accommodation_suggester (workflow_metadata ?r2)"] t3
  have n3: "res3 = None" and f3: "status ae3 = FAILED" and m3: "msgs3 \<noteq> []" by auto
  have "after_suggester env input = execute_accommodation_suggester env it ?r2"
    by (simp add: three_stages_eq i2)
  then show ?thesis
    unfolding r3 n3
    using f3 m3 c c2 s2 q by (simp add: extend_errors_def after_planner_keeps)
qed

lemma incomplete_parse:
  assumes "k \<le> max_retries" and "\<forall>j < k. \<forall>w. parser_run env j \<noteq> Returns w"
    and "parser_run env k = Returns pr" and "\<not> reports_complete pr"
  shows "parsed_request (after_suggester env input) = Some (create_partial_request_from_response pr input) \<and>
         status (request_parser (workflow_metadata (after_suggester env input))) = COMPLETED \<and>
         itinerary (after_suggester env input) =
           fst (run_stage (ascii ''ActivitiesPlanner'')
                  (\<lambda>k. planner_run env k (create_partial_request_from_response pr input))
                  (AgentExecution (ascii ''ActivitiesPlanner'')))"
proof -
  let ?r1 = "after_parser env input" and ?req = "create_partial_request_from_response pr input"
  from after_parser_result [of env input] obtain res ae msgs where
    t: "run_stage (ascii ''RequestParser'') (parser_run env) (AgentExecution (ascii ''RequestParser''))
       = (res, ae, msgs)"
    and q: "request_parser (workflow_metadata ?r1) = ae"
    and r: "parsed_request ?r1 = (case res of None \<Rightarrow> None | Some pr \<Rightarrow>
            Some (if reports_complete pr
                  then convert_to_core_travel_request (collected_data pr)
                  else create_partial_request_from_response pr input))"
    by blast
  from run_stage_first_success [OF assms(1-3), of "ascii ''RequestParser''"
      "AgentExecution (ascii ''RequestParser'')"] t
  have s: "res = Some pr" and c: "status ae = COMPLETED" by auto
  have p1: "parsed_request ?r1 = Some ?req" using r s assms(4) by simp
  from planner_stage [of env ?req ?r1] obtain res2 ae2 msgs2 where
    t2: "run_stage (ascii ''ActivitiesPlanner'') (\<lambda>k. planner_run env k ?req)
           (activities_planner (workflow_metadata ?r1)) = (res2, ae2, msgs2)"
    and r2: "execute_activities_planner env ?req ?r1 =
       ?r1\<lparr> itinerary := (case res2 of None \<Rightarrow> itinerary ?r1 | Some it \<Rightarrow> Some it),
             workflow_metadata := extend_errors ((workflow_metadata ?r1)\<lparr> current_stage := FINDING_PLACES,
                                                       activities_planner := ae2 \<rparr>) msgs2 \<rparr>"
    by blast
  have e: "after_planner env input = execute_activities_planner env ?req ?r1"
    by (simp add: after_planner_def p1)
  have "itinerary (after_planner env input) = res2"
    unfolding e r2 by (cases res2) (simp_all add: after_parser_fresh)
  moreover have "res2 = fst (run_stage (ascii ''ActivitiesPlanner'') (\<lambda>k. planner_run env k ?req)
                  (AgentExecution (ascii ''ActivitiesPlanner'')))"
    using t2 by (simp add: after_parser_fresh)
  ultimately show ?thesis
    using p1 c q by (simp add: three_stages_keeps)
qed


lemma has_errors_failed:
  "status (request_parser md) = FAILED \<or> status (activities_planner md) = FAILED \<or>
   status (accommodation_suggester md) = FAILED \<Longrightarrow> has_errors md"
  by (auto simp: has_errors_def)

text \<open>
  C1, amended. \<open>execute_workflow\<close> always returns, with the stage marked
  completed. If no attempt of the parser returns, nothing is parsed, planned or
  suggested, the parser is failed and the two later agents stay pending. If the
  request was parsed and no attempt of the planner returns, there is no itinerary
  and no accommodation, the planner is failed, the suggester stays pending and the
  response is partial. If request and itinerary are there and every attempt of the
  suggester raises, the accommodations stay unset, the suggester is failed, the error
  list is not empty, \<open>has_errors\<close> holds and the response is partial.
\<close>

theorem failed_stage_skips_downstream:
  "(let r = execute_workflow env input in
      ((\<forall>k \<le> max_retries. \<forall>v. parser_run env k \<noteq> Returns v) \<longrightarrow>
         parsed_request r = None \<and> itinerary r = None \<and> accommodations r = None \<and>
         status (request_parser (workflow_metadata r)) = FAILED \<and>
         status (activities_planner (workflow_metadata r)) = PENDING \<and>
         status (accommodation_suggester (workflow_metadata r)) = PENDING \<and> has_errors (workflow_metadata r)) \<and>
      (\<forall>req. parsed_request r = Some req \<and>
         (\<forall>k \<le> max_retries. \<forall>v. planner_run env k req \<noteq> Returns v) \<longrightarrow>
         itinerary r = None \<and> accommodations r = None \<and>
         status (activities_planner (workflow_metadata r)) = FAILED \<and>
         status (accommodation_suggester (workflow_metadata r)) = PENDING \<and>
         has_errors (workflow_metadata r) \<and> is_partial r) \<and>
      (\<forall>req it. parsed_request r = Some req \<and> itinerary r = Some it \<and>
         (\<forall>k \<le> max_retries. \<exists>e. suggester_run env k it = Raises e) \<longrightarrow>
         accommodations r = None \<and> status (accommodation_suggester (workflow_metadata r)) = FAILED \<and>
         errors (workflow_metadata r) \<noteq> [] \<and> has_errors (workflow_metadata r) \<and> is_partial r) \<and>
      current_stage (workflow_metadata r) = STAGE_COMPLETED)"
proof -
  let ?r = "execute_workflow env input"
  have a: "parsed_request ?r = None \<and> itinerary ?r = None \<and> accommodations ?r = None \<and>
         status (request_parser (workflow_metadata ?r)) = FAILED \<and>
         status (activities_planner (workflow_metadata ?r)) = PENDING \<and>
         status (accommodation_suggester (workflow_metadata ?r)) = PENDING \<and> has_errors (workflow_metadata ?r)"
    if "\<forall>k \<le> max_retries. \<forall>v. parser_run env k \<noteq> Returns v"
    using parser_failure [OF that, of input]
    by (simp add: execute_workflow_fields has_errors_failed)
  have b: "itinerary ?r = None \<and> accommodations ?r = None \<and>
         status (activities_planner (workflow_metadata ?r)) = FAILED \<and>
         status (accommodation_suggester (workflow_metadata ?r)) = PENDING \<and>
         has_errors (workflow_metadata ?r) \<and> is_partial ?r"
    if "parsed_request ?r = Some req \<and> (\<forall>k \<le> max_retries. \<forall>v. planner_run env k req \<noteq> Returns v)"
    for req
  proof -
    from that have p: "parsed_request (after_suggester env input) = Some req"
      and f: "\<forall>k \<le> max_retries. \<forall>v. planner_run env k req \<noteq> Returns v"
      by (simp_all add: execute_workflow_fields)
    from planner_failure [OF p f] that show ?thesis
      by (simp add: execute_workflow_fields has_errors_failed is_partial_def)
  qed
  have c: "accommodations ?r = None \<and> status (accommodation_suggester (workflow_metadata ?r)) = FAILED \<and>
         errors (workflow_metadata ?r) \<noteq> [] \<and> has_errors (workflow_metadata ?r) \<and> is_partial ?r"
    if "parsed_request ?r = Some req \<and> itinerary ?r = Some it \<and>
         (\<forall>k \<le> max_retries. \<exists>e. suggester_run env k it = Raises e)"
    for req it
  proof -
    from that have p: "parsed_request (after_suggester env input) = Some req"
      and i: "itinerary (after_suggester env input) = Some it"
      and f: "\<forall>k \<le> max_retries. \<exists>e. suggester_run env k it = Raises e"
      by (simp_all add: execute_workflow_fields)
    from suggester_failure [OF p i f] that execute_workflow_errors [of env input] show ?thesis
      by (simp add: execute_workflow_fields has_errors_failed is_partial_def)
  qed
  show ?thesis
    unfolding Let_def using a b c execute_workflow_fields(7) [of env input] by blast
qed

lemma down_env_runs:
  "parser_run suggester_down_env 0 = Returns \<lparr> reports_complete = False, collected_data = empty_request \<rparr>"
  "planner_run suggester_down_env k req = Returns mumbai_itinerary"
  "suggester_run suggester_down_env k it = Raises (ascii ''search unavailable'')"
  by (simp_all add: suggester_down_env_def)

lemma suggester_down_stages:
  "parsed_request (execute_workflow suggester_down_env input) =
     Some (create_partial_request_from_response
             \<lparr> reports_complete = False, collected_data = empty_request \<rparr> input) \<and>
   itinerary (execute_workflow suggester_down_env input) = Some mumbai_itinerary"
proof -
  let ?pr = "\<lparr> reports_complete = False, collected_data = empty_request \<rparr>"
  have z: "(0 :: nat) \<le> max_retries" by simp
  have n: "\<forall>j < (0 :: nat). \<forall>w. parser_run suggester_down_env j \<noteq> Returns w" by simp
  have i: "\<not> reports_complete ?pr" by simp
  note l = incomplete_parse [OF z n down_env_runs(1) i, of input]
  have m: "\<forall>j < (0 :: nat). \<forall>w. planner_run suggester_down_env j
      (create_partial_request_from_response ?pr input) \<noteq> Returns w" by simp
  from run_stage_first_success [OF z m down_env_runs(2)]
  have "fst (run_stage (ascii ''ActivitiesPlanner'')
      (\<lambda>k. planner_run suggester_down_env k (create_partial_request_from_response ?pr input))
      (AgentExecution (ascii ''ActivitiesPlanner''))) = Some mumbai_itinerary"
    by (metis fst_conv)
  with l show ?thesis by (simp add: execute_workflow_fields)
qed

text \<open>
  C1, as stated, fails: when every attempt of the suggester raises after a parsed
  request and a planned itinerary, the response holds the itinerary, but its
  accommodations are unset, not a canned fallback; the errors are recorded and the
  response is partial.
\<close>

theorem no_canned_accommodations:
  "itinerary (execute_workflow suggester_down_env (ascii ''Mumbai for 3 days'')) = Some mumbai_itinerary \<and>
   accommodations (execute_workflow suggester_down_env (ascii ''Mumbai for 3 days'')) = None \<and>
   has_errors (workflow_metadata (execute_workflow suggester_down_env (ascii ''Mumbai for 3 days''))) \<and>
   is_partial (execute_workflow suggester_down_env (ascii ''Mumbai for 3 days''))"
proof -
  let ?input = "ascii ''Mumbai for 3 days''"
  have p: "parsed_request (after_suggester suggester_down_env ?input) =
     Some (create_partial_request_from_response
             \<lparr> reports_complete = False, collected_data = empty_request \<rparr> ?input)"
    and i: "itinerary (after_suggester suggester_down_env ?input) = Some mumbai_itinerary"
    using suggester_down_stages [of ?input] by (simp_all add: execute_workflow_fields)
  have f: "\<forall>k \<le> max_retries. \<exists>e. suggester_run suggester_down_env k mumbai_itinerary = Raises e"
    by (simp add: down_env_runs)
  from suggester_failure [OF p i f] p i show ?thesis
    by (simp add: execute_workflow_fields has_errors_failed is_partial_def)
qed


lemma down_env_others:
  "parser_run parser_down_env k = TimesOut"
  "parser_run planner_down_env 0 = Returns \<lparr> reports_complete = False, collected_data = empty_request \<rparr>"
  "planner_run planner_down_env k req = Raises (ascii ''research failed'')"
  by (simp_all add: parser_down_env_def planner_down_env_def suggester_down_env_def)

lemma first_attempt_incomplete:
  assumes "parser_run env 0 = Returns pr" and "\<not> reports_complete pr"
  shows "parsed_request (execute_workflow env input) =
           Some (create_partial_request_from_response pr input)"
proof -
  have z: "(0 :: nat) \<le> max_retries" by simp
  have n: "\<forall>j < (0 :: nat). \<forall>w. parser_run env j \<noteq> Returns w" by simp
  from incomplete_parse [OF z n assms, of input] show ?thesis
    by (simp add: execute_workflow_fields)
qed

theorem failed_stage_skips_downstream_witness:
  "parser_run parser_down_env 0 = TimesOut \<and> parser_run parser_down_env 1 = TimesOut \<and>
   parser_run parser_down_env 2 = TimesOut \<and> max_retries = 2 \<and>
   parsed_request (execute_workflow parser_down_env (ascii ''Mumbai for 3 days'')) = None \<and>
   itinerary (execute_workflow parser_down_env (ascii ''Mumbai for 3 days'')) = None \<and>
   accommodations (execute_workflow parser_down_env (ascii ''Mumbai for 3 days'')) = None \<and>
   status (activities_planner (workflow_metadata (execute_workflow parser_down_env (ascii ''Mumbai for 3 days''))))
     = PENDING \<and>
   planner_run planner_down_env 0 create_fallback_request = Raises (ascii ''research failed'') \<and>
   planner_run planner_down_env 1 create_fallback_request = Raises (ascii ''research failed'') \<and>
   planner_run planner_down_env 2 create_fallback_request = Raises (ascii ''research failed'') \<and>
   parsed_request (execute_workflow planner_down_env (ascii ''Mumbai for 3 days''))
     = Some create_fallback_request \<and>
   itinerary (execute_workflow planner_down_env (ascii ''Mumbai for 3 days'')) = None \<and>
   accommodations (execute_workflow planner_down_env (ascii ''Mumbai for 3 days'')) = None \<and>
   is_partial (execute_workflow planner_down_env (ascii ''Mumbai for 3 days'')) \<and>
   suggester_run suggester_down_env 0 mumbai_itinerary = Raises (ascii ''search unavailable'') \<and>
   suggester_run suggester_down_env 1 mumbai_itinerary = Raises (ascii ''search unavailable'') \<and>
   suggester_run suggester_down_env 2 mumbai_itinerary = Raises (ascii ''search unavailable'') \<and>
   itinerary (execute_workflow suggester_down_env (ascii ''Mumbai for 3 days'')) = Some mumbai_itinerary \<and>
   accommodations (execute_workflow suggester_down_env (ascii ''Mumbai for 3 days'')) = None \<and>
   has_errors (workflow_metadata (execute_workflow suggester_down_env (ascii ''Mumbai for 3 days''))) \<and>
   is_partial (execute_workflow suggester_down_env (ascii ''Mumbai for 3 days''))"
proof -
  let ?input = "ascii ''Mumbai for 3 days''"
  let ?pr = "\<lparr> reports_complete = False, collected_data = empty_request \<rparr>"
  have d: "create_partial_request_from_response ?pr ?input = create_fallback_request"
    by (simp add: create_partial_request_from_response_def create_fallback_request_def)
  have h1: "\<forall>k \<le> max_retries. \<forall>v. parser_run parser_down_env k \<noteq> Returns v"
    by (simp add: down_env_others)
  from failed_stage_skips_downstream [of parser_down_env ?input] h1
  have 1: "parsed_request (execute_workflow parser_down_env ?input) = None \<and>
     itinerary (execute_workflow parser_down_env ?input) = None \<and>
     accommodations (execute_workflow parser_down_env ?input) = None \<and>
     status (activities_planner (workflow_metadata (execute_workflow parser_down_env ?input))) = PENDING"
    unfolding Let_def by blast
  have p2: "parsed_request (execute_workflow planner_down_env ?input) = Some create_fallback_request"
    using first_attempt_incomplete [OF down_env_others(2), of ?input] d by simp
  have h2: "\<forall>k \<le> max_retries. \<forall>v. planner_run planner_down_env k create_fallback_request \<noteq> Returns v"
    by (simp add: down_env_others)
  from failed_stage_skips_downstream [of planner_down_env ?input] p2 h2
  have 2: "itinerary (execute_workflow planner_down_env ?input) = None \<and>
     accommodations (execute_workflow planner_down_env ?input) = None \<and>
     is_partial (execute_workflow planner_down_env ?input)"
    unfolding Let_def by blast
  have p3: "parsed_request (execute_workflow suggester_down_env ?input) = Some create_fallback_request"
    and i3: "itinerary (execute_workflow suggester_down_env ?input) = Some mumbai_itinerary"
    using suggester_down_stages [of ?input] d by simp_all
  have h3: "\<forall>k \<le> max_retries. \<exists>e. suggester_run suggester_down_env k mumbai_itinerary = Raises e"
    by (simp add: down_env_runs)
  from failed_stage_skips_downstream [of suggester_down_env ?input] p3 i3 h3
  have 3: "accommodations (execute_workflow suggester_down_env ?input) = None \<and>
     has_errors (workflow_metadata (execute_workflow suggester_down_env ?input)) \<and>
     is_partial (execute_workflow suggester_down_env ?input)"
    unfolding Let_def by blast
  show ?thesis
    using 1 2 3 p2 i3 by (simp add: down_env_others down_env_runs max_retries_def)
qed

text \<open>
  C9. When the first attempt of the parser that returns hands over an answer whose
  \<open>is_complete\<close> is false, the parsed request of the response is the fixed request
  for Mumbai, India, 3 days, 2 adults and no children, "25000 INR" in INR, mid-range;
  the parser is marked completed, and the itinerary of the response is what the
  planner stage makes of that fixed request.
\<close>

theorem incomplete_parse_uses_default:
  "\<forall>k pr. k \<le> max_retries \<and> (\<forall>j < k. \<forall>w. parser_run env j \<noteq> Returns w) \<and>
      parser_run env k = Returns pr \<and> \<not> reports_complete pr \<longrightarrow>
      create_partial_request_from_response pr input =
        \<lparr> destination = Some (ascii ''Mumbai, India''), duration = Some 3,
          travelers = Some \<lparr> adults = 2, children = 0, total = 2 \<rparr>,
          budget = Some \<lparr> total_amount = Text (ascii ''25000 INR''), currency = ascii ''INR'',
                          accommodation_type = Some MID_RANGE \<rparr>,
          missing_fields = [], is_complete = False, needs_disambiguation = None,
          parse_error = None \<rparr> \<and>
      parsed_request (execute_workflow env input) =
        Some (create_partial_request_from_response pr input) \<and>
      status (request_parser (workflow_metadata (execute_workflow env input))) = COMPLETED \<and>
      itinerary (execute_workflow env input) =
        fst (run_stage (ascii ''ActivitiesPlanner'')
               (\<lambda>k. planner_run env k (create_partial_request_from_response pr input))
               (AgentExecution (ascii ''ActivitiesPlanner'')))"
proof (intro allI impI)
  fix k pr
  assume a: "k \<le> max_retries \<and> (\<forall>j < k. \<forall>w. parser_run env j \<noteq> Returns w) \<and>
      parser_run env k = Returns pr \<and> \<not> reports_complete pr"
  then have 1: "k \<le> max_retries" and 2: "\<forall>j < k. \<forall>w. parser_run env j \<noteq> Returns w"
    and 3: "parser_run env k = Returns pr" and 4: "\<not> reports_complete pr"
    by simp_all
  from incomplete_parse [OF 1 2 3 4, of input]
  show "create_partial_request_from_response pr input =
        \<lparr> destination = Some (ascii ''Mumbai, India''), duration = Some 3,
          travelers = Some \<lparr> adults = 2, children = 0, total = 2 \<rparr>,
          budget = Some \<lparr> total_amount = Text (ascii ''25000 INR''), currency = ascii ''INR'',
                          accommodation_type = Some MID_RANGE \<rparr>,
          missing_fields = [], is_complete = False, needs_disambiguation = None,
          parse_error = None \<rparr> \<and>
      parsed_request (execute_workflow env input) =
        Some (create_partial_request_from_response pr input) \<and>
      status (request_parser (workflow_metadata (execute_workflow env input))) = COMPLETED \<and>
      itinerary (execute_workflow env input) =
        fst (run_stage (ascii ''ActivitiesPlanner'')
               (\<lambda>k. planner_run env k (create_partial_request_from_response pr input))
               (AgentExecution (ascii ''ActivitiesPlanner'')))"
    by (simp add: execute_workflow_fields)
      (simp add: create_partial_request_from_response_def CoreTravelRequest_def)
qed

theorem incomplete_parse_uses_default_witness:
  "(0 :: nat) \<le> max_retries \<and>
   parser_run suggester_down_env 0 =
     Returns \<lparr> reports_complete = False, collected_data = empty_request \<rparr> \<and>
   parsed_request (execute_workflow suggester_down_env (ascii ''Paris in spring'')) =
     Some \<lparr> destination = Some (ascii ''Mumbai, India''), duration = Some 3,
            travelers = Some \<lparr> adults = 2, children = 0, total = 2 \<rparr>,
            budget = Some \<lparr> total_amount = Text (ascii ''25000 INR''), currency = ascii ''INR'',
                            accommodation_type = Some MID_RANGE \<rparr>,
            missing_fields = [], is_complete = False, needs_disambiguation = None,
            parse_error = None \<rparr> \<and>
   status (request_parser (workflow_metadata (execute_workflow suggester_down_env (ascii ''Paris in spring''))))
     = COMPLETED \<and>
   itinerary (execute_workflow suggester_down_env (ascii ''Paris in spring'')) = Some mumbai_itinerary"
proof -
  let ?input = "ascii ''Paris in spring''"
  let ?pr = "\<lparr> reports_complete = False, collected_data = empty_request \<rparr>"
  have h: "(0 :: nat) \<le> max_retries \<and>
      (\<forall>j < (0 :: nat). \<forall>w. parser_run suggester_down_env j \<noteq> Returns w) \<and>
      parser_run suggester_down_env 0 = Returns ?pr \<and> \<not> reports_complete ?pr"
    by (simp add: down_env_runs)
  from incomplete_parse_uses_default [of suggester_down_env ?input] h
  have "create_partial_request_from_response ?pr ?input =
        \<lparr> destination = Some (ascii ''Mumbai, India''), duration = Some 3,
          travelers = Some \<lparr> adults = 2, children = 0, total = 2 \<rparr>,
          budget = Some \<lparr> total_amount = Text (ascii ''25000 INR''), currency = ascii ''INR'',
                          accommodation_type = Some MID_RANGE \<rparr>,
          missing_fields = [], is_complete = False, needs_disambiguation = None,
          parse_error = None \<rparr> \<and>
      parsed_request (execute_workflow suggester_down_env ?input) =
        Some (create_partial_request_from_response ?pr ?input) \<and>
      status (request_parser (workflow_metadata (execute_workflow suggester_down_env ?input))) = COMPLETED"
    by blast
  then show ?thesis
    using suggester_down_stages [of ?input] h by simp
qed

end
